theory Spec2Isabelle
  imports Complex_Main
begin

section \<open>Python string primitives\<close>

text \<open>
  A Python \<open>str\<close> is modelled as a \<open>string\<close>, one \<open>char\<close> per character
  (code points below 256).  The functions below are the \<open>str\<close> methods and slices the
  scripts use, with Python's results written out.
\<close>

text \<open>Characters removed by \<open>str.strip()\<close> without argument and matched by \<open>\s\<close>.\<close>

definition is_space :: "char \<Rightarrow> bool" where
  "is_space c = (c \<in> set [CHR 0x09, CHR 0x0A, CHR 0x0B, CHR 0x0C, CHR 0x0D,
                            CHR 0x1C, CHR 0x1D, CHR 0x1E, CHR 0x1F, CHR 0x20,
                            CHR 0x85, CHR 0xA0])"

text \<open>\<open>\d\<close> and \<open>[0-9a-f]\<close>.\<close>

definition is_digit :: "char \<Rightarrow> bool" where
  "is_digit c = (c \<in> set ''0123456789'')"

definition is_hex :: "char \<Rightarrow> bool" where
  "is_hex c = (c \<in> set ''0123456789abcdef'')"

text \<open>\<open>s.lstrip(chars)\<close>, \<open>s.rstrip(chars)\<close>, \<open>s.strip(chars)\<close>; the character set is a predicate.\<close>

definition lstrip_by :: "(char \<Rightarrow> bool) \<Rightarrow> string \<Rightarrow> string" where
  "lstrip_by P s = dropWhile P s"

definition rstrip_by :: "(char \<Rightarrow> bool) \<Rightarrow> string \<Rightarrow> string" where
  "rstrip_by P s = rev (dropWhile P (rev s))"

definition strip_by :: "(char \<Rightarrow> bool) \<Rightarrow> string \<Rightarrow> string" where
  "strip_by P s = rstrip_by P (lstrip_by P s)"

text \<open>\<open>s.strip()\<close>\<close>

definition strip :: "string \<Rightarrow> string" where
  "strip s = strip_by is_space s"

text \<open>\<open>s.strip('"')\<close>\<close>

definition strip_quote :: "string \<Rightarrow> string" where
  "strip_quote s = strip_by (\<lambda>c. c = CHR 0x22) s"

text \<open>\<open>s.strip(' ,')\<close> and \<open>s.rstrip(' ,')\<close>\<close>

definition strip_space_comma :: "string \<Rightarrow> string" where
  "strip_space_comma s = strip_by (\<lambda>c. c = CHR '' '' \<or> c = CHR '','') s"

definition rstrip_space_comma :: "string \<Rightarrow> string" where
  "rstrip_space_comma s = rstrip_by (\<lambda>c. c = CHR '' '' \<or> c = CHR '','') s"

text \<open>\<open>line.rstrip('\n\r')\<close>\<close>

definition rstrip_newline :: "string \<Rightarrow> string" where
  "rstrip_newline s = rstrip_by (\<lambda>c. c = CHR 0x0A \<or> c = CHR 0x0D) s"

text \<open>\<open>sep.join(xs)\<close>\<close>

fun join :: "string \<Rightarrow> string list \<Rightarrow> string" where
  "join sep [] = []"
| "join sep [x] = x"
| "join sep (x # y # ys) = x @ sep @ join sep (y # ys)"

text \<open>\<open>s.split(c)\<close> for a one-character separator: never an empty list.\<close>

fun split_char :: "char \<Rightarrow> string \<Rightarrow> string list" where
  "split_char c [] = [[]]"
| "split_char c (x # xs) =
     (if x = c then [] # split_char c xs
      else (case split_char c xs of
              [] \<Rightarrow> [[x]]
            | p # ps \<Rightarrow> (x # p) # ps))"

text \<open>\<open>s.startswith(p)\<close>\<close>

fun startswith :: "string \<Rightarrow> string \<Rightarrow> bool" where
  "startswith s [] = True"
| "startswith [] (p # ps) = False"
| "startswith (x # xs) (p # ps) = (x = p \<and> startswith xs ps)"

text \<open>\<open>s.find(sub)\<close>: the lowest index where \<open>sub\<close> occurs, \<open>None\<close> for Python's \<open>-1\<close>.\<close>

fun find_str :: "string \<Rightarrow> string \<Rightarrow> nat option" where
  "find_str [] sub = (if sub = [] then Some 0 else None)"
| "find_str (x # xs) sub =
     (if startswith (x # xs) sub then Some 0
      else map_option Suc (find_str xs sub))"

text \<open>\<open>s.rfind(sub)\<close>: the highest index where \<open>sub\<close> occurs.\<close>

fun rfind_str :: "string \<Rightarrow> string \<Rightarrow> nat option" where
  "rfind_str [] sub = (if sub = [] then Some 0 else None)"
| "rfind_str (x # xs) sub =
     (case rfind_str xs sub of
        Some i \<Rightarrow> Some (Suc i)
      | None \<Rightarrow> (if startswith (x # xs) sub then Some 0 else None))"

text \<open>\<open>sub in s\<close>\<close>

definition contains :: "string \<Rightarrow> string \<Rightarrow> bool" where
  "contains s sub = (find_str s sub \<noteq> None)"

text \<open>
  \<open>s.rsplit(sep, 1)\<close> for a non-empty separator: one split at the rightmost occurrence,
  or the string alone when the separator does not occur.
\<close>

definition rsplit1 :: "string \<Rightarrow> string \<Rightarrow> string list" where
  "rsplit1 s sep =
     (case rfind_str s sep of
        None \<Rightarrow> [s]
      | Some i \<Rightarrow> [take i s, drop (i + length sep) s])"

text \<open>The joint between the two free-text columns: quote, comma, quote.\<close>

definition joint :: string where
  "joint = [CHR 0x22, CHR '','', CHR 0x22]"

text \<open>The slice \<open>s[a:b]\<close> for non-negative bounds (empty when \<open>b \<le> a\<close>).\<close>

definition slice :: "nat \<Rightarrow> nat \<Rightarrow> 'a list \<Rightarrow> 'a list" where
  "slice a b xs = drop a (take b xs)"

text \<open>\<open>s.replace(c, new)\<close> for a one-character \<open>c\<close>.\<close>

definition replace_char :: "char \<Rightarrow> string \<Rightarrow> string \<Rightarrow> string" where
  "replace_char c new s = concat (map (\<lambda>x. if x = c then new else [x]) s)"

section \<open>The regular expressions of the scripts\<close>

text \<open>
  The patterns the scripts compile are sequences of three kinds of items: a literal
  character, a character class repeated exactly \<open>n\<close> times, and a character class
  repeated one or more times (greedy).  In every pattern used here the item after a
  \<open>+\<close> repetition is a literal outside the repeated class, so the greedy run is the
  only way to match and no backtracking arises.
\<close>

datatype rx = Lit char | Rep "char \<Rightarrow> bool" nat | Plus "char \<Rightarrow> bool"

text \<open>\<open>rx_match p s\<close>: the length of the match of \<open>p\<close> anchored at the start of \<open>s\<close>.\<close>

fun rx_match :: "rx list \<Rightarrow> string \<Rightarrow> nat option" where
  "rx_match [] s = Some 0"
| "rx_match (Lit c # p) s =
     (case s of
        [] \<Rightarrow> None
      | x # xs \<Rightarrow> if x = c then map_option Suc (rx_match p xs) else None)"
| "rx_match (Rep P n # p) s =
     (if n \<le> length s \<and> list_all P (take n s)
      then map_option (\<lambda>k. n + k) (rx_match p (drop n s))
      else None)"
| "rx_match (Plus P # p) s =
     (let k = length (takeWhile P s)
      in if k = 0 then None
         else map_option (\<lambda>j. k + j) (rx_match p (drop k s)))"

text \<open>\<open>pattern.match(s)\<close> as a truth value.\<close>

definition re_match :: "rx list \<Rightarrow> string \<Rightarrow> bool" where
  "re_match p s = (rx_match p s \<noteq> None)"

text \<open>\<open>pattern.search(s)\<close> as a truth value: a match at some position.\<close>

fun re_search :: "rx list \<Rightarrow> string \<Rightarrow> bool" where
  "re_search p [] = re_match p []"
| "re_search p (x # xs) = (re_match p (x # xs) \<or> re_search p xs)"

text \<open>
  \<open>pattern.finditer(s)\<close>: the non-overlapping matches from left to right, each as
  \<open>(start, end)\<close>; the first argument is the index of the head of the string scanned.
\<close>

fun finditer_from :: "nat \<Rightarrow> rx list \<Rightarrow> string \<Rightarrow> (nat \<times> nat) list" where
  "finditer_from i p [] = (case rx_match p [] of None \<Rightarrow> [] | Some _ \<Rightarrow> [(i, i)])"
| "finditer_from i p (x # xs) =
     (case rx_match p (x # xs) of
        None \<Rightarrow> finditer_from (Suc i) p xs
      | Some 0 \<Rightarrow> (i, i) # finditer_from (Suc i) p xs
      | Some (Suc k) \<Rightarrow> (i, i + Suc k) # finditer_from (i + Suc k) p (drop k xs))"

definition finditer :: "rx list \<Rightarrow> string \<Rightarrow> (nat \<times> nat) list" where
  "finditer p s = finditer_from 0 p s"

text \<open>\<open>m.group()\<close> of a match \<open>(start, end)\<close> in \<open>s\<close>.\<close>

definition group :: "string \<Rightarrow> nat \<times> nat \<Rightarrow> string" where
  "group s m = slice (fst m) (snd m) s"

text \<open>\<open>[0-9a-f]{8}-[0-9a-f]{4}-[0-9a-f]{4}-[0-9a-f]{4}-[0-9a-f]{12}\<close>\<close>

definition uuid_rx :: "rx list" where
  "uuid_rx = [Rep is_hex 8, Lit CHR ''-'', Rep is_hex 4, Lit CHR ''-'', Rep is_hex 4,
              Lit CHR ''-'', Rep is_hex 4, Lit CHR ''-'', Rep is_hex 12]"

text \<open>The record-start anchor \<open>uuid_pattern\<close>: the identifier at line start, then a comma.\<close>

definition uuid_pattern :: "rx list" where
  "uuid_pattern = uuid_rx @ [Lit CHR '','']"

text \<open>\<open>\d{4}-\d{2}-\d{2} \d{2}:\d{2}:\d{2}\<close>, the pattern of \<open>fix_csv_final.py\<close>.\<close>

definition datetime_rx :: "rx list" where
  "datetime_rx = [Rep is_digit 4, Lit CHR ''-'', Rep is_digit 2, Lit CHR ''-'', Rep is_digit 2,
                  Lit CHR '' '', Rep is_digit 2, Lit CHR '':'', Rep is_digit 2, Lit CHR '':'',
                  Rep is_digit 2]"

text \<open>
  \<open>\d{4}-\d{2}-\d{2} \d{2}:\d{2}:\d{2}\.\d+\+\d{2}\<close>, the \<open>timestamp_pattern\<close> of
  \<open>fix_competitor_csv.py\<close>, \<open>fix_competitor_csv_final.py\<close> and \<open>create_clean_csv.py\<close>.
\<close>

definition timestamp_pattern :: "rx list" where
  "timestamp_pattern = datetime_rx @ [Lit CHR ''.'', Plus is_digit, Lit CHR ''+'', Rep is_digit 2]"

section \<open>The field resolvers\<close>

text \<open>
  A resolver returns \<open>None\<close> where the Python returns \<open>None\<close>.  Indexing is only
  written with \<open>!\<close> where the source has already checked the length.
\<close>

subsection \<open>\<open>fix_csv_final.py\<close>: \<open>process_record_lines\<close>\<close>

definition process_record_lines :: "string list \<Rightarrow> string list option" where
  "process_record_lines lines =
     (let full_text = strip (join '' '' lines);
          parts = split_char CHR '','' full_text
      in if length parts < 13 then None
         else
           let fields = take 8 parts;
               remaining_parts = drop 8 parts;
               timestamp_positions =
                 filter (\<lambda>i. re_search datetime_rx (remaining_parts ! i))
                        [0 ..< length remaining_parts]
           in if length timestamp_positions \<ge> 2 then
                let last_timestamp_pos = timestamp_positions ! (length timestamp_positions - 1);
                    second_last_pos = timestamp_positions ! (length timestamp_positions - 2);
                    response_text_parts = take second_last_pos remaining_parts;
                    analyzed_at_parts = slice second_last_pos last_timestamp_pos remaining_parts;
                    created_at_parts =
                      slice last_timestamp_pos (last_timestamp_pos + 1) remaining_parts;
                    session_id_parts = drop (last_timestamp_pos + 1) remaining_parts;
                    response_text = strip (join '','' response_text_parts);
                    quote_split = rsplit1 response_text joint;
                    response_only =
                      (if length quote_split = 2 then strip_quote (quote_split ! 0)
                       else strip_quote response_text);
                    summary_text =
                      (if length quote_split = 2 then strip (quote_split ! 1) else []);
                    analyzed_at = strip (join '','' analyzed_at_parts);
                    created_at = strip (join '','' created_at_parts);
                    analysis_session_id = strip (join '','' session_id_parts)
                in Some (take 13 (fields @ [response_only, summary_text, analyzed_at,
                                            created_at, analysis_session_id]))
              else None)"

subsection \<open>\<open>create_clean_csv.py\<close>: \<open>parse_record_lines\<close>\<close>

text \<open>
  The text between field 8 and \<open>analyzed_at\<close> starts one character after the first
  occurrence of the \<open>confidence_score\<close> string in the whole line; were \<open>find\<close> to
  return \<open>-1\<close>, the slice would start at \<open>len(confidence_score)\<close>.
\<close>

definition parse_record_lines :: "string list \<Rightarrow> string list option" where
  "parse_record_lines lines =
     (let full_line = strip (join '' '' lines);
          timestamps = finditer timestamp_pattern full_line
      in if length timestamps \<ge> 2 then
           let analyzed_at_match = timestamps ! (length timestamps - 2);
               created_at_match = timestamps ! (length timestamps - 1);
               parts = split_char CHR '','' full_line
           in if length parts \<ge> 8 then
                let id_val = strip (parts ! 0);
                    prompt_id = strip (parts ! 1);
                    llm_provider = strip (parts ! 2);
                    website_id = strip (parts ! 3);
                    is_mentioned = strip (parts ! 4);
                    rank_position = strip (parts ! 5);
                    sentiment_score = strip (parts ! 6);
                    confidence_score = strip (parts ! 7);
                    analyzed_at_start = fst analyzed_at_match;
                    created_at_end = snd created_at_match;
                    middle_start =
                      (case find_str full_line confidence_score of
                         Some i \<Rightarrow> i + length confidence_score + 1
                       | None \<Rightarrow> length confidence_score);
                    middle_part =
                      strip_space_comma (slice middle_start analyzed_at_start full_line);
                    response_text =
                      (if contains middle_part joint
                       then strip_quote (rsplit1 middle_part joint ! 0)
                       else strip_quote middle_part);
                    summary_text =
                      (if contains middle_part joint
                       then strip_quote (rsplit1 middle_part joint ! 1)
                       else []);
                    analyzed_at = group full_line analyzed_at_match;
                    created_at = group full_line created_at_match;
                    remaining_text = strip_space_comma (drop created_at_end full_line);
                    analysis_session_id = remaining_text
                in Some [id_val, prompt_id, llm_provider, website_id, is_mentioned,
                         rank_position, sentiment_score, confidence_score,
                         response_text, summary_text, analyzed_at, created_at,
                         analysis_session_id]
              else None
         else None)"

subsection \<open>\<open>fix_competitor_csv.py\<close>: \<open>parse_competitor_record\<close>\<close>

text \<open>
  With at least 14 parts no index of the \<open>try\<close> block is out of range, so the
  \<open>except\<close> branch is never taken.
\<close>

definition parse_competitor_record :: "string list \<Rightarrow> rx list \<Rightarrow> string list option" where
  "parse_competitor_record lines ts_pattern =
     (let full_line = strip (join '' '' lines);
          parts = split_char CHR '','' full_line
      in if length parts < 14 then None
         else
           let id_val = strip (parts ! 0);
               competitor_id = strip (parts ! 1);
               llm_analysis_id = strip (parts ! 2);
               llm_provider = strip (parts ! 3);
               is_mentioned = strip (parts ! 4);
               rank_position = strip (parts ! 5);
               sentiment_score = strip (parts ! 6);
               confidence_score = strip (parts ! 7);
               remaining_parts = drop 8 parts;
               remaining_text = join '','' remaining_parts;
               timestamps = finditer ts_pattern remaining_text
           in if length timestamps \<ge> 2 then
                let analyzed_at_match = timestamps ! (length timestamps - 2);
                    created_at_match = timestamps ! (length timestamps - 1);
                    analyzed_at_start = fst analyzed_at_match;
                    created_at_end = snd created_at_match;
                    middle_text = strip_space_comma (take analyzed_at_start remaining_text);
                    response_text =
                      (if contains middle_text joint
                       then strip_quote (rsplit1 middle_text joint ! 0)
                       else strip_quote middle_text);
                    summary_text =
                      (if contains middle_text joint
                       then strip_quote (rsplit1 middle_text joint ! 1)
                       else []);
                    analyzed_at = group remaining_text analyzed_at_match;
                    created_at = group remaining_text created_at_match;
                    remaining_after_created =
                      strip_space_comma (drop created_at_end remaining_text);
                    final_parts =
                      (if remaining_after_created \<noteq> []
                       then split_char CHR '','' remaining_after_created
                       else [[], []]);
                    prompt_id = (if length final_parts > 0 then strip (final_parts ! 0) else []);
                    analysis_session_id =
                      (if length final_parts > 1 then strip (final_parts ! 1) else [])
                in Some [id_val, competitor_id, llm_analysis_id, llm_provider, is_mentioned,
                         rank_position, sentiment_score, confidence_score,
                         response_text, summary_text, analyzed_at, created_at,
                         prompt_id, analysis_session_id]
              else None)"

subsection \<open>\<open>fix_competitor_csv_final.py\<close>: \<open>parse_competitor_record_robust\<close>\<close>

text \<open>
  \<open>re.match(r'^(X),', s)\<close> followed by \<open>group(1)\<close>: the match without its final comma.
\<close>

definition match_group1 :: "rx list \<Rightarrow> string \<Rightarrow> string option" where
  "match_group1 p s = map_option (\<lambda>n. take (n - 1) s) (rx_match (p @ [Lit CHR '','']) s)"

text \<open>\<open>re.match(r'^(true|false),', s)\<close> followed by \<open>group(1)\<close>.\<close>

definition match_boolean :: "string \<Rightarrow> string option" where
  "match_boolean s =
     (if startswith s ''true,'' then Some ''true''
      else if startswith s ''false,'' then Some ''false''
      else None)"

text \<open>\<open>[^,]+\<close>\<close>

definition non_comma_rx :: "rx list" where
  "non_comma_rx = [Plus (\<lambda>c. c \<noteq> CHR '','')]"

text \<open>One step of the prefix scan: the captured field and the text after its comma.\<close>

definition take_field :: "(string \<Rightarrow> string option) \<Rightarrow> string \<Rightarrow> (string \<times> string) option" where
  "take_field m s = map_option (\<lambda>v. (v, drop (length v + 1) s)) (m s)"

definition parse_competitor_record_robust :: "string list \<Rightarrow> rx list \<Rightarrow> string list option" where
  "parse_competitor_record_robust lines ts_pattern =
     (let full_line = strip (join '' '' lines)
      in
      (case take_field (match_group1 uuid_rx) full_line of None \<Rightarrow> None
       | Some (id_val, r1) \<Rightarrow>
      (case take_field (match_group1 uuid_rx) r1 of None \<Rightarrow> None
       | Some (competitor_id, r2) \<Rightarrow>
      (case take_field (match_group1 uuid_rx) r2 of None \<Rightarrow> None
       | Some (llm_analysis_id, r3) \<Rightarrow>
      (case take_field (match_group1 non_comma_rx) r3 of None \<Rightarrow> None
       | Some (llm_provider, r4) \<Rightarrow>
      (case take_field match_boolean r4 of None \<Rightarrow> None
       | Some (is_mentioned, r5) \<Rightarrow>
      (case take_field (match_group1 non_comma_rx) r5 of None \<Rightarrow> None
       | Some (rank_position, r6) \<Rightarrow>
      (case take_field (match_group1 non_comma_rx) r6 of None \<Rightarrow> None
       | Some (sentiment_score, r7) \<Rightarrow>
      (case take_field (match_group1 non_comma_rx) r7 of None \<Rightarrow> None
       | Some (confidence_score, remaining) \<Rightarrow>
      (let timestamps = finditer ts_pattern remaining
       in if length timestamps \<ge> 2 then
            let analyzed_at_match = timestamps ! (length timestamps - 2);
                created_at_match = timestamps ! (length timestamps - 1);
                text_part = rstrip_space_comma (take (fst analyzed_at_match) remaining);
                response_text =
                  (if contains text_part joint
                   then strip_quote (rsplit1 text_part joint ! 0)
                   else strip_quote text_part);
                summary_text =
                  (if contains text_part joint
                   then strip_quote (rsplit1 text_part joint ! 1)
                   else []);
                analyzed_at = group remaining analyzed_at_match;
                created_at = group remaining created_at_match;
                after_created_at = strip_space_comma (drop (snd created_at_match) remaining);
                final_parts =
                  (if after_created_at \<noteq> []
                   then split_char CHR '','' after_created_at
                   else [[], []]);
                prompt_id = (if length final_parts > 0 then strip (final_parts ! 0) else []);
                analysis_session_id =
                  (if length final_parts > 1 then strip (final_parts ! 1) else [])
            in Some [id_val, competitor_id, llm_analysis_id, llm_provider, is_mentioned,
                     rank_position, sentiment_score, confidence_score,
                     response_text, summary_text, analyzed_at, created_at,
                     prompt_id, analysis_session_id]
          else None))))))))))"

section \<open>The main loops\<close>

text \<open>
  Each script reads the file into \<open>lines\<close>, skips \<open>lines[0]\<close> and runs one pass over
  \<open>lines[1:]\<close> with the list \<open>current_record_lines\<close> as the open record.  The loops
  are modelled as a step function on the loop's variables, folded over \<open>lines[1:]\<close>,
  followed by the block after the loop.  The resolver a loop calls is an argument of
  its model, so that what a loop hands to its resolver can be stated; the scripts
  themselves are the instances at their own resolver.  A Python \<open>if record:\<close> holds
  for a list that is neither \<open>None\<close> nor empty.
\<close>

subsection \<open>\<open>fix_csv_final.py\<close>\<close>

record final_state =
  fs_records :: "string list list"
  fs_current_record_lines :: "string list"
  fs_record_count :: nat

definition final_init :: final_state where
  "final_init = \<lparr>fs_records = [], fs_current_record_lines = [], fs_record_count = 0\<rparr>"

text \<open>The block under \<open>if current_record_lines:\<close>, the same inside and after the loop.\<close>

definition final_process :: "(string list \<Rightarrow> string list option) \<Rightarrow> final_state \<Rightarrow> final_state" where
  "final_process resolver st =
     (if fs_current_record_lines st \<noteq> [] then
        (case resolver (fs_current_record_lines st) of
           None \<Rightarrow> st
         | Some record \<Rightarrow>
             if record \<noteq> []
             then st\<lparr>fs_records := fs_records st @ [record],
                     fs_record_count := fs_record_count st + 1\<rparr>
             else st)
      else st)"

definition final_step :: "(string list \<Rightarrow> string list option) \<Rightarrow> final_state \<Rightarrow> string \<Rightarrow> final_state" where
  "final_step resolver st raw =
     (let line = rstrip_newline raw
      in if re_match uuid_pattern line
         then (final_process resolver st)\<lparr>fs_current_record_lines := [line]\<rparr>
         else if fs_current_record_lines st \<noteq> []
              then st\<lparr>fs_current_record_lines := fs_current_record_lines st @ [line]\<rparr>
              else st)"

definition final_loop :: "(string list \<Rightarrow> string list option) \<Rightarrow> string list \<Rightarrow> final_state" where
  "final_loop resolver body = final_process resolver (foldl (final_step resolver) final_init body)"

text \<open>
  The whole function: \<open>lines[0]\<close> raises \<open>IndexError\<close> on an empty file (\<open>None\<close>);
  otherwise the header row written (the header split at commas), the records written
  after it, and the count returned.
\<close>

definition fix_csv_final :: "string list \<Rightarrow> (string list \<times> string list list \<times> nat) option" where
  "fix_csv_final lines =
     (case lines of
        [] \<Rightarrow> None
      | header # body \<Rightarrow>
          let st = final_loop process_record_lines body
          in Some (split_char CHR '','' (strip header), fs_records st, fs_record_count st))"

subsection \<open>\<open>create_clean_csv.py\<close>\<close>

record clean_state =
  cs_records :: "string list list"
  cs_current_record_lines :: "string list"
  cs_processed :: nat

definition clean_init :: clean_state where
  "clean_init = \<lparr>cs_records = [], cs_current_record_lines = [], cs_processed = 0\<rparr>"

definition clean_process :: "(string list \<Rightarrow> string list option) \<Rightarrow> clean_state \<Rightarrow> clean_state" where
  "clean_process resolver st =
     (if cs_current_record_lines st \<noteq> [] then
        (case resolver (cs_current_record_lines st) of
           None \<Rightarrow> st
         | Some record \<Rightarrow>
             if record \<noteq> [] \<and> length record = 13
             then st\<lparr>cs_records := cs_records st @ [record],
                     cs_processed := cs_processed st + 1\<rparr>
             else st)
      else st)"

definition clean_step :: "(string list \<Rightarrow> string list option) \<Rightarrow> clean_state \<Rightarrow> string \<Rightarrow> clean_state" where
  "clean_step resolver st raw =
     (let line = rstrip_newline raw
      in if re_match uuid_pattern line
         then (clean_process resolver st)\<lparr>cs_current_record_lines := [line]\<rparr>
         else if cs_current_record_lines st \<noteq> []
              then st\<lparr>cs_current_record_lines := cs_current_record_lines st @ [line]\<rparr>
              else st)"

text \<open>\<open>if max_records and len(records) >= max_records: break\<close>, tested before each line.\<close>

definition reached_max :: "int option \<Rightarrow> clean_state \<Rightarrow> bool" where
  "reached_max max_records st =
     (case max_records of
        None \<Rightarrow> False
      | Some m \<Rightarrow> m \<noteq> 0 \<and> int (length (cs_records st)) \<ge> m)"

fun clean_for :: "int option \<Rightarrow> (string list \<Rightarrow> string list option) \<Rightarrow> clean_state \<Rightarrow> string list \<Rightarrow> clean_state" where
  "clean_for max_records resolver st [] = st"
| "clean_for max_records resolver st (raw # rest) =
     (if reached_max max_records st then st
      else clean_for max_records resolver (clean_step resolver st raw) rest)"

definition clean_loop :: "int option \<Rightarrow> (string list \<Rightarrow> string list option) \<Rightarrow> string list \<Rightarrow> clean_state" where
  "clean_loop max_records resolver body =
     clean_process resolver (clean_for max_records resolver clean_init body)"

text \<open>The rows written after the fixed header, and the count returned.\<close>

definition create_clean_csv :: "string list \<Rightarrow> int option \<Rightarrow> string list list \<times> nat" where
  "create_clean_csv lines max_records =
     (let st = clean_loop max_records parse_record_lines (drop 1 lines)
      in (cs_records st, length (cs_records st)))"

subsection \<open>\<open>fix_csv_simple.py\<close>\<close>

text \<open>\<open>re.sub(r'\s+', ' ', s)\<close>: every maximal run of whitespace becomes one space.\<close>

function sub_spaces :: "string \<Rightarrow> string" where
  "sub_spaces [] = []"
| "sub_spaces (c # cs) =
     (if is_space c then CHR '' '' # sub_spaces (dropWhile is_space cs)
      else c # sub_spaces cs)"
  by pat_completeness auto
termination
  by (relation "measure length") (auto simp: less_Suc_eq_le length_dropWhile_le)

record simple_state =
  ss_fixed_lines :: "string list"
  ss_current_record :: string
  ss_record_count :: nat

definition simple_save :: "simple_state \<Rightarrow> simple_state" where
  "simple_save st =
     (if strip (ss_current_record st) \<noteq> []
      then st\<lparr>ss_fixed_lines := ss_fixed_lines st @ [sub_spaces (strip (ss_current_record st))],
              ss_record_count := ss_record_count st + 1\<rparr>
      else st)"

definition simple_step :: "simple_state \<Rightarrow> string \<Rightarrow> simple_state" where
  "simple_step st raw =
     (let line = rstrip_newline raw
      in if re_match uuid_pattern line
         then (simple_save st)\<lparr>ss_current_record := line\<rparr>
         else if ss_current_record st \<noteq> []
              then st\<lparr>ss_current_record := ss_current_record st @ '' '' @ line\<rparr>
              else st)"

text \<open>\<open>lines[0]\<close> raises on an empty file; otherwise the lines written and the count.\<close>

definition fix_csv_simple :: "string list \<Rightarrow> (string list \<times> nat) option" where
  "fix_csv_simple lines =
     (case lines of
        [] \<Rightarrow> None
      | header # body \<Rightarrow>
          let st0 = \<lparr>ss_fixed_lines = [strip header], ss_current_record = [],
                     ss_record_count = 0\<rparr>;
              st = simple_save (foldl simple_step st0 body)
          in Some (ss_fixed_lines st, ss_record_count st))"

subsection \<open>\<open>fix_competitor_csv.py\<close> and \<open>fix_competitor_csv_final.py\<close>\<close>

record comp_state =
  records :: "string list list"
  current_record_lines :: "string list"
  total_processed :: nat
  valid_records :: nat
  fk_violations :: nat
  malformed_records :: nat

definition comp_init :: comp_state where
  "comp_init = \<lparr>records = [], current_record_lines = [], total_processed = 0,
                 valid_records = 0, fk_violations = 0, malformed_records = 0\<rparr>"

text \<open>
  The block under \<open>if record and len(record) == 14:\<close>, which both scripts have
  inside and after the loop: count the record, then look its third field up in
  \<open>valid_llm_ids\<close>.
\<close>

definition fk_check :: "string set \<Rightarrow> comp_state \<Rightarrow> string list \<Rightarrow> comp_state" where
  "fk_check valid_llm_ids st record =
     (let st1 = st\<lparr>total_processed := total_processed st + 1\<rparr>;
          llm_analysis_id = record ! 2
      in if llm_analysis_id \<in> valid_llm_ids
         then st1\<lparr>records := records st1 @ [record], valid_records := valid_records st1 + 1\<rparr>
         else st1\<lparr>fk_violations := fk_violations st1 + 1\<rparr>)"

text \<open>Inside the loop of \<open>fix_competitor_csv\<close>: any other outcome counts as malformed.\<close>

definition comp_process :: "(string list \<Rightarrow> string list option) \<Rightarrow> string set \<Rightarrow> comp_state \<Rightarrow> comp_state" where
  "comp_process resolver valid_llm_ids st =
     (if current_record_lines st \<noteq> [] then
        (case resolver (current_record_lines st) of
           None \<Rightarrow> st\<lparr>malformed_records := malformed_records st + 1\<rparr>
         | Some record \<Rightarrow>
             if record \<noteq> [] \<and> length record = 14
             then fk_check valid_llm_ids st record
             else st\<lparr>malformed_records := malformed_records st + 1\<rparr>)
      else st)"

text \<open>
  After the loop of \<open>fix_competitor_csv\<close>, and at both places of
  \<open>fix_competitor_csv_final\<close>: no \<open>else\<close> branch.
\<close>

definition comp_process_last :: "(string list \<Rightarrow> string list option) \<Rightarrow> string set \<Rightarrow> comp_state \<Rightarrow> comp_state" where
  "comp_process_last resolver valid_llm_ids st =
     (if current_record_lines st \<noteq> [] then
        (case resolver (current_record_lines st) of
           None \<Rightarrow> st
         | Some record \<Rightarrow>
             if record \<noteq> [] \<and> length record = 14
             then fk_check valid_llm_ids st record
             else st)
      else st)"

definition comp_step :: "(comp_state \<Rightarrow> comp_state) \<Rightarrow> comp_state \<Rightarrow> string \<Rightarrow> comp_state" where
  "comp_step process st raw =
     (let line = rstrip_newline raw
      in if re_match uuid_pattern line
         then (process st)\<lparr>current_record_lines := [line]\<rparr>
         else if current_record_lines st \<noteq> []
              then st\<lparr>current_record_lines := current_record_lines st @ [line]\<rparr>
              else st)"

text \<open>The loop variables after the loop, at each prefix of \<open>lines[1:]\<close>.\<close>

definition comp_for :: "(string list \<Rightarrow> string list option) \<Rightarrow> string set \<Rightarrow> string list \<Rightarrow> comp_state" where
  "comp_for resolver valid_llm_ids body =
     foldl (comp_step (comp_process resolver valid_llm_ids)) comp_init body"

definition comp_final_for :: "(string list \<Rightarrow> string list option) \<Rightarrow> string set \<Rightarrow> string list \<Rightarrow> comp_state" where
  "comp_final_for resolver valid_llm_ids body =
     foldl (comp_step (comp_process_last resolver valid_llm_ids)) comp_init body"

text \<open>
  The two functions, from the file's lines and the identifier set already loaded, to
  the variables when the output file is written.
\<close>

definition comp_loop :: "(string list \<Rightarrow> string list option) \<Rightarrow> string set \<Rightarrow> string list \<Rightarrow> comp_state" where
  "comp_loop resolver valid_llm_ids body =
     comp_process_last resolver valid_llm_ids (comp_for resolver valid_llm_ids body)"

definition comp_final_loop :: "(string list \<Rightarrow> string list option) \<Rightarrow> string set \<Rightarrow> string list \<Rightarrow> comp_state" where
  "comp_final_loop resolver valid_llm_ids body =
     comp_process_last resolver valid_llm_ids (comp_final_for resolver valid_llm_ids body)"

definition fix_competitor_csv :: "string list \<Rightarrow> string set \<Rightarrow> comp_state" where
  "fix_competitor_csv lines valid_llm_ids =
     comp_loop (\<lambda>ls. parse_competitor_record ls timestamp_pattern) valid_llm_ids (drop 1 lines)"

definition fix_competitor_csv_final :: "string list \<Rightarrow> string set \<Rightarrow> comp_state" where
  "fix_competitor_csv_final lines valid_llm_ids =
     comp_final_loop (\<lambda>ls. parse_competitor_record_robust ls timestamp_pattern) valid_llm_ids
       (drop 1 lines)"

text \<open>
  The rows written after the header.  \<open>fix_competitor_csv\<close> hands \<open>records\<close> to
  \<open>writer.writerows\<close> as they are.  \<open>fix_competitor_csv_final\<close> writes a cleaned
  copy of each record: every field is stripped, its whitespace runs are collapsed to
  one space (\<open>re.sub(r'\s+', ' ', field.strip())\<close>), and then NUL and carriage
  return are removed and a newline is replaced by a space.
\<close>

definition fix_competitor_csv_rows :: "string list \<Rightarrow> string set \<Rightarrow> string list list" where
  "fix_competitor_csv_rows lines valid_llm_ids = records (fix_competitor_csv lines valid_llm_ids)"

definition clean_output_field :: "string \<Rightarrow> string" where
  "clean_output_field field =
     replace_char CHR 0x0A '' ''
       (replace_char CHR 0x0D [] (replace_char CHR 0x00 [] (sub_spaces (strip field))))"

definition fix_competitor_csv_final_rows :: "string list \<Rightarrow> string set \<Rightarrow> string list list" where
  "fix_competitor_csv_final_rows lines valid_llm_ids =
     map (map clean_output_field) (records (fix_competitor_csv_final lines valid_llm_ids))"

text \<open>
  What \<open>fix_competitor_csv\<close> returns.  After the output file is written, the report
  divides by \<open>total_processed\<close>: with no record processed the function raises
  \<open>ZeroDivisionError\<close> (\<open>None\<close>) instead of returning \<open>valid_records\<close>.
  \<open>fix_competitor_csv_final\<close> writes no report and always returns \<open>valid_records\<close>.
\<close>

definition fix_competitor_csv_returns :: "string list \<Rightarrow> string set \<Rightarrow> nat option" where
  "fix_competitor_csv_returns lines valid_llm_ids =
     (let st = fix_competitor_csv lines valid_llm_ids
      in if total_processed st = 0 then None else Some (valid_records st))"

definition fix_competitor_csv_final_returns :: "string list \<Rightarrow> string set \<Rightarrow> nat" where
  "fix_competitor_csv_final_returns lines valid_llm_ids =
     valid_records (fix_competitor_csv_final lines valid_llm_ids)"

section \<open>\<open>fix_llm_csv.py\<close>: the class \<open>LLMCSVCleaner\<close>\<close>

subsection \<open>Library functions\<close>

text \<open>\<open>s.replace(old, '')\<close> for a non-empty \<open>old\<close>: occurrences are removed left to right.\<close>

fun remove_str :: "string \<Rightarrow> string \<Rightarrow> string" where
  "remove_str old [] = []"
| "remove_str old (x # xs) =
     (if old \<noteq> [] \<and> startswith (x # xs) old
      then remove_str old (drop (length old - 1) xs)
      else x # remove_str old xs)"

text \<open>
  \<open>int(s, 16)\<close> as a truth value (whether it parses): surrounding whitespace, an optional
  sign, an optional \<open>0x\<close> or \<open>0X\<close>, then hexadecimal digits in groups separated by single
  underscores (one underscore may follow the prefix).  The whitespace \<open>int\<close> skips is
  narrower than that of \<open>str.strip()\<close>: the ASCII characters \<open>0x09\<close> to \<open>0x0D\<close> and
  the space, and the two non-ASCII spaces below 256, \<open>0x85\<close> and \<open>0xA0\<close>, which
  \<open>int\<close> turns into spaces before parsing; the separators \<open>0x1C\<close> to \<open>0x1F\<close> are
  not skipped.
\<close>

definition is_int_space :: "char \<Rightarrow> bool" where
  "is_int_space c = (c \<in> set [CHR 0x09, CHR 0x0A, CHR 0x0B, CHR 0x0C, CHR 0x0D, CHR 0x20,
                                CHR 0x85, CHR 0xA0])"

definition is_hexdigit :: "char \<Rightarrow> bool" where
  "is_hexdigit c = (c \<in> set ''0123456789abcdefABCDEF'')"

definition digit_groups :: "string \<Rightarrow> bool" where
  "digit_groups s = list_all (\<lambda>g. g \<noteq> [] \<and> list_all is_hexdigit g) (split_char CHR ''_'' s)"

definition int16_parses :: "string \<Rightarrow> bool" where
  "int16_parses s =
     (let t = strip_by is_int_space s;
          u = (if startswith t ''+'' \<or> startswith t ''-'' then drop 1 t else t)
      in if startswith u ''0x'' \<or> startswith u ''0X''
         then (let b = drop 2 u in digit_groups (if startswith b ''_'' then drop 1 b else b))
         else digit_groups u)"

text \<open>
  \<open>uuid.UUID(hex)\<close> as a truth value (whether it returns): \<open>urn:\<close> and \<open>uuid:\<close> are
  removed, braces stripped, hyphens removed; 32 characters must remain and parse as a
  hexadecimal integer.
\<close>

definition uuid_parses :: "string \<Rightarrow> bool" where
  "uuid_parses hex0 =
     (let hex1 = remove_str ''uuid:'' (remove_str ''urn:'' hex0);
          hex2 = replace_char CHR ''-'' [] (strip_by (\<lambda>c. c = CHR ''{'' \<or> c = CHR ''}'') hex1)
      in length hex2 = 32 \<and> int16_parses hex2)"

text \<open>\<open>s.lower()\<close> on the characters below 256.\<close>

definition lower_char :: "char \<Rightarrow> char" where
  "lower_char c =
     (let n = (of_char c :: nat)
      in if (65 \<le> n \<and> n \<le> 90) \<or> (192 \<le> n \<and> n \<le> 222 \<and> n \<noteq> 215)
         then char_of (n + 32) else c)"

definition lower :: "string \<Rightarrow> string" where
  "lower s = map lower_char s"

text \<open>
  The value of a Python \<open>float\<close>.  \<open>int(s)\<close> and \<open>float(s)\<close> are arguments of the
  model of \<open>validate_row\<close> (\<open>None\<close> is \<open>ValueError\<close>).
\<close>

datatype pyfloat = Finite rat | PosInf | NegInf | NaN

text \<open>\<open>lo <= x <= hi\<close> for finite bounds.\<close>

definition float_between :: "rat \<Rightarrow> rat \<Rightarrow> pyfloat \<Rightarrow> bool" where
  "float_between lo hi x = (case x of Finite q \<Rightarrow> lo \<le> q \<and> q \<le> hi | _ \<Rightarrow> False)"

subsection \<open>\<open>is_valid_uuid\<close> and \<open>clean_text_field\<close>\<close>

definition is_valid_uuid :: "string \<Rightarrow> bool" where
  "is_valid_uuid value =
     (if value = [] \<or> strip value = [] then False else uuid_parses (strip value))"

text \<open>The marker appended to a truncated field.\<close>

definition truncation_marker :: string where
  "truncation_marker = ''... [TRUNCATED]''"

text \<open>
  The text after the four replacements: NUL removed, newline and carriage return
  replaced by backslash-n and backslash-r, every quote doubled.
\<close>

definition escape_text :: "string \<Rightarrow> string" where
  "escape_text text =
     replace_char CHR 0x22 [CHR 0x22, CHR 0x22]
       (replace_char CHR 0x0D [CHR 0x5C, CHR ''r'']
          (replace_char CHR 0x0A [CHR 0x5C, CHR ''n'']
             (replace_char CHR 0x00 [] text)))"

text \<open>
  \<open>clean_text_field\<close>: the text returned and whether \<open>logger.warning\<close> was called.
\<close>

definition clean_text_field :: "string \<Rightarrow> string \<times> bool" where
  "clean_text_field text =
     (if text = [] then ([], False)
      else let t = escape_text text
           in if length t > 50000 then (take 50000 t @ truncation_marker, True)
              else (t, False))"

subsection \<open>\<open>validate_row\<close>\<close>

datatype issue =
    WrongColumnCount nat nat
  | InvalidUUID string string
  | InvalidOptionalUUID string
  | InvalidProvider string
  | InvalidBoolean string
  | RankTooLow int
  | InvalidRank string
  | SentimentOutOfRange pyfloat
  | InvalidSentiment string
  | ConfidenceOutOfRange pyfloat
  | InvalidConfidence string

record validation =
  is_valid :: bool
  errors :: "issue list"
  warnings :: "issue list"

definition expected_columns :: "string list" where
  "expected_columns =
     [''id'', ''prompt_id'', ''llm_provider'', ''website_id'', ''is_mentioned'',
      ''rank_position'', ''sentiment_score'', ''confidence_score'', ''response_text'',
      ''summary_text'', ''analyzed_at'', ''created_at'', ''analysis_session_id'']"

definition valid_llm_providers :: "string set" where
  "valid_llm_providers =
     {''chatgpt'', ''claude'', ''gemini'', ''perplexity'', ''gpt-4'', ''claude-3''}"

definition add_error :: "issue \<Rightarrow> validation \<Rightarrow> validation" where
  "add_error e v = v\<lparr>is_valid := False, errors := errors v @ [e]\<rparr>"

definition add_warning :: "issue \<Rightarrow> validation \<Rightarrow> validation" where
  "add_warning w v = v\<lparr>warnings := warnings v @ [w]\<rparr>"

text \<open>The loop over \<open>required_uuids\<close>; the second argument is the column of \<open>field\<close>.\<close>

definition check_required_uuid :: "string list \<Rightarrow> nat \<Rightarrow> validation \<Rightarrow> validation" where
  "check_required_uuid row_dict i v =
     (if \<not> is_valid_uuid (row_dict ! i)
      then add_error (InvalidUUID (expected_columns ! i) (take 50 (row_dict ! i))) v
      else v)"

text \<open>
  The optional UUID.  This block assigns to \<open>row_dict['analysis_session_id']\<close>, so it
  returns the dictionary as well; \<open>row_dict\<close> is the dictionary built from the row and,
  with 13 distinct keys in column order, is modelled as the list of its values.
\<close>

definition check_optional_uuid :: "string list \<Rightarrow> validation \<Rightarrow> validation \<times> string list" where
  "check_optional_uuid row_dict v =
     (if row_dict ! 12 \<noteq> [] \<and> \<not> is_valid_uuid (row_dict ! 12)
      then (add_warning (InvalidOptionalUUID (take 50 (row_dict ! 12))) v, row_dict[12 := []])
      else (v, row_dict))"

definition check_provider :: "string list \<Rightarrow> validation \<Rightarrow> validation" where
  "check_provider row_dict v =
     (if row_dict ! 2 \<notin> valid_llm_providers
      then add_error (InvalidProvider (row_dict ! 2)) v else v)"

definition check_boolean :: "string list \<Rightarrow> validation \<Rightarrow> validation" where
  "check_boolean row_dict v =
     (let is_mentioned = strip (lower (row_dict ! 4))
      in if is_mentioned \<notin> {''true'', ''false'', ''t'', ''f'', ''1'', ''0'', []}
         then add_warning (InvalidBoolean is_mentioned) v else v)"

definition check_rank :: "(string \<Rightarrow> int option) \<Rightarrow> string list \<Rightarrow> validation \<Rightarrow> validation" where
  "check_rank to_int row_dict v =
     (if strip (row_dict ! 5) \<noteq> [] then
        (case to_int (row_dict ! 5) of
           None \<Rightarrow> add_warning (InvalidRank (row_dict ! 5)) v
         | Some rank_pos \<Rightarrow>
             if rank_pos < - 1 then add_error (RankTooLow rank_pos) v else v)
      else v)"

definition check_sentiment :: "(string \<Rightarrow> pyfloat option) \<Rightarrow> string list \<Rightarrow> validation \<Rightarrow> validation" where
  "check_sentiment to_float row_dict v =
     (if strip (row_dict ! 6) \<noteq> [] then
        (case to_float (row_dict ! 6) of
           None \<Rightarrow> add_warning (InvalidSentiment (row_dict ! 6)) v
         | Some sentiment \<Rightarrow>
             if \<not> float_between (- 1) 1 sentiment
             then add_error (SentimentOutOfRange sentiment) v else v)
      else v)"

definition check_confidence :: "(string \<Rightarrow> pyfloat option) \<Rightarrow> string list \<Rightarrow> validation \<Rightarrow> validation" where
  "check_confidence to_float row_dict v =
     (if strip (row_dict ! 7) \<noteq> [] then
        (case to_float (row_dict ! 7) of
           None \<Rightarrow> add_warning (InvalidConfidence (row_dict ! 7)) v
         | Some confidence \<Rightarrow>
             if \<not> float_between 0 1 confidence
             then add_error (ConfidenceOutOfRange confidence) v else v)
      else v)"

text \<open>
  \<open>validate_row\<close>: the checks in the order of the source.  The function returns
  \<open>validation\<close> only; the model also returns \<open>row_dict\<close> as it is at the end, to show
  what the assignment to \<open>row_dict['analysis_session_id']\<close> changes: \<open>row\<close> itself is
  not assigned to.
\<close>

definition validate_row ::
  "(string \<Rightarrow> int option) \<Rightarrow> (string \<Rightarrow> pyfloat option) \<Rightarrow> string list
     \<Rightarrow> validation \<times> string list" where
  "validate_row to_int to_float row =
     (if length row \<noteq> length expected_columns
      then (add_error (WrongColumnCount (length row) (length expected_columns))
              \<lparr>is_valid = True, errors = [], warnings = []\<rparr>, row)
      else
        (case check_optional_uuid row
                (check_required_uuid row 3
                   (check_required_uuid row 1
                      (check_required_uuid row 0
                         \<lparr>is_valid = True, errors = [], warnings = []\<rparr>))) of
           (v, row_dict) \<Rightarrow>
             (check_confidence to_float row_dict
                (check_sentiment to_float row_dict
                   (check_rank to_int row_dict
                      (check_boolean row_dict (check_provider row_dict v)))),
              row_dict)))"

subsection \<open>\<open>process_file\<close>: a parsed line\<close>

text \<open>
  The part of the loop body of \<open>process_file\<close> that follows \<open>row = next(reader)\<close>,
  on the rows written so far, the counters and \<open>current_line\<close>.  Both branches under
  \<open>len(row) == 13\<close> clean fields 8 and 9 of \<open>row\<close> and write \<open>row\<close>.
\<close>

record llm_state =
  written :: "string list list"
  processed_rows :: nat
  constraint_violations :: nat
  skipped_rows :: nat
  current_line :: string

definition process_parsed_row ::
  "(string \<Rightarrow> int option) \<Rightarrow> (string \<Rightarrow> pyfloat option) \<Rightarrow> llm_state
     \<Rightarrow> string list \<Rightarrow> llm_state" where
  "process_parsed_row to_int to_float st row =
     (if length row = 13 then
        let validation = fst (validate_row to_int to_float row);
            row' = row[8 := fst (clean_text_field (row ! 8))];
            row'' = row'[9 := fst (clean_text_field (row' ! 9))]
        in if is_valid validation
           then st\<lparr>written := written st @ [row''],
                   processed_rows := processed_rows st + 1,
                   current_line := []\<rparr>
           else st\<lparr>written := written st @ [row''],
                   constraint_violations := constraint_violations st + 1,
                   processed_rows := processed_rows st + 1,
                   current_line := []\<rparr>
      else if length (current_line st) > 100000
           then st\<lparr>skipped_rows := skipped_rows st + 1, current_line := []\<rparr>
           else st)"

section \<open>The Record Segmenter as the specification describes it\<close>

text \<open>
  Following the specification's words: a line that matches the record-start anchor
  closes the open record, if there is one, and opens a new record with itself; any
  other line is appended to the open record, or discarded when no record is open; the
  record open at the end of the input is flushed.  The first argument is the open
  record (empty when none is open).
\<close>

fun segment_from :: "string list \<Rightarrow> string list \<Rightarrow> string list list" where
  "segment_from cur [] = (if cur \<noteq> [] then [cur] else [])"
| "segment_from cur (l # ls) =
     (if re_match uuid_pattern l
      then (if cur \<noteq> [] then [cur] else []) @ segment_from [l] ls
      else segment_from (if cur \<noteq> [] then cur @ [l] else cur) ls)"

text \<open>The logical records of the lines after the header, line ends removed.\<close>

definition segment :: "string list \<Rightarrow> string list list" where
  "segment body = segment_from [] (map rstrip_newline body)"

text \<open>
  What each script does with one logical record \<open>g\<close>: \<open>fix_csv_final\<close> keeps the
  resolver's result when it is a non-empty list, \<open>create_clean_csv\<close> when it moreover
  has 13 fields, \<open>fix_csv_simple\<close> writes the lines joined by single spaces, stripped,
  with every whitespace run collapsed.  The competitor scripts pass the resolver's
  result on to the foreign-key check when it is a non-empty list of 14 fields.
\<close>

definition kept_final :: "(string list \<Rightarrow> string list option) \<Rightarrow> string list \<Rightarrow> string list option" where
  "kept_final resolver g =
     (case resolver g of None \<Rightarrow> None | Some r \<Rightarrow> if r \<noteq> [] then Some r else None)"

definition kept_clean :: "(string list \<Rightarrow> string list option) \<Rightarrow> string list \<Rightarrow> string list option" where
  "kept_clean resolver g =
     (case resolver g of
        None \<Rightarrow> None
      | Some r \<Rightarrow> if r \<noteq> [] \<and> length r = 13 then Some r else None)"

definition resolved_competitor :: "(string list \<Rightarrow> string list option) \<Rightarrow> string list \<Rightarrow> string list option" where
  "resolved_competitor resolver g =
     (case resolver g of
        None \<Rightarrow> None
      | Some r \<Rightarrow> if r \<noteq> [] \<and> length r = 14 then Some r else None)"

definition simple_line :: "string list \<Rightarrow> string" where
  "simple_line g = sub_spaces (strip (join '' '' g))"

text \<open>
  The competitor scripts on a list of logical records: every record but the last goes
  through the block inside the loop, the last through the block after the loop, each
  with \<open>current_record_lines\<close> set to that record.
\<close>

definition comp_run_groups ::
  "(comp_state \<Rightarrow> comp_state) \<Rightarrow> (comp_state \<Rightarrow> comp_state) \<Rightarrow> string list list \<Rightarrow> comp_state" where
  "comp_run_groups process process_last gs =
     (if gs = [] then comp_init
      else process_last
             ((foldl (\<lambda>st g. process (st\<lparr>current_record_lines := g\<rparr>)) comp_init (butlast gs))
                \<lparr>current_record_lines := last gs\<rparr>))"

section \<open>Predicates used in the statements\<close>


text \<open>
  The comma-separated parts of a logical record (its lines joined by spaces and
  stripped), and the text after the eight leading parts, which is what
  \<open>parse_competitor_record\<close> scans for timestamps.
\<close>

definition comma_parts :: "string list \<Rightarrow> string list" where
  "comma_parts lines = split_char CHR '','' (strip (join '' '' lines))"

definition text_after_prefix :: "string list \<Rightarrow> string" where
  "text_after_prefix lines = join '','' (drop 8 (comma_parts lines))"

text \<open>
  The timestamp pattern in the specification's words, \<open>YYYY-MM-DD HH:MM:SS.ffffff\<plusminus>HH\<close>:
  six fractional digits and an offset of either sign.
\<close>

definition spec_timestamp_pattern :: "rx list" where
  "spec_timestamp_pattern =
     datetime_rx @ [Lit CHR ''.'', Rep is_digit 6,
                    Rep (\<lambda>c. c = CHR ''+'' \<or> c = CHR ''-'') 1, Rep is_digit 2]"

text \<open>
  The record-start anchor in the specification's words: a hyphenated token of 8-4-4-4-12
  hexadecimal digits (of either case) at line start, followed by a comma.
\<close>

definition spec_anchor_pattern :: "rx list" where
  "spec_anchor_pattern =
     [Rep is_hexdigit 8, Lit CHR ''-'', Rep is_hexdigit 4, Lit CHR ''-'', Rep is_hexdigit 4,
      Lit CHR ''-'', Rep is_hexdigit 4, Lit CHR ''-'', Rep is_hexdigit 12, Lit CHR '','']"

section \<open>Sample inputs\<close>

text \<open>
  The one-line record of the specification's scenario for the analysis-results entity.
\<close>

definition sample_llm_line :: string where
  "sample_llm_line = ''a1b2c3d4-e5f6-7890-abcd-ef1234567890,pid,chatgpt,wid,true,1,0.50,0.90,\"hello\",\"world\",2025-01-01 00:00:00.000000+00,2025-01-01 00:00:00.000000+00,''"

text \<open>A one-line record of the competitor entity, and the 14 fields it resolves to.\<close>

definition sample_competitor_line :: string where
  "sample_competitor_line = ''a1b2c3d4-e5f6-7890-abcd-ef1234567890,a1b2c3d4-e5f6-7890-abcd-ef1234567891,a1b2c3d4-e5f6-7890-abcd-ef1234567892,chatgpt,true,1,0.50,0.90,\"hello\",\"world\",2025-01-01 00:00:00.000000+00,2025-01-02 00:00:00.000000+00,pid,sid''"

definition sample_competitor_record :: "string list" where
  "sample_competitor_record =
     [''a1b2c3d4-e5f6-7890-abcd-ef1234567890'', ''a1b2c3d4-e5f6-7890-abcd-ef1234567891'',
      ''a1b2c3d4-e5f6-7890-abcd-ef1234567892'', ''chatgpt'', ''true'', ''1'', ''0.50'', ''0.90'',
      ''hello'', ''world'', ''2025-01-01 00:00:00.000000+00'', ''2025-01-02 00:00:00.000000+00'',
      ''pid'', ''sid'']"

text \<open>
  A row of the analysis-results entity whose optional \<open>analysis_session_id\<close> is not a
  UUID; the numeric columns are empty (NULL).
\<close>

definition sample_bad_session_row :: "string list" where
  "sample_bad_session_row =
     [''a1b2c3d4-e5f6-7890-abcd-ef1234567890'', ''a1b2c3d4-e5f6-7890-abcd-ef1234567891'',
      ''chatgpt'', ''a1b2c3d4-e5f6-7890-abcd-ef1234567892'', ''true'', [], [], [],
      ''hello'', ''world'', ''2025-01-01 00:00:00.000000+00'',
      ''2025-01-01 00:00:00.000000+00'', ''not-a-uuid'']"

text \<open>
  A record of the analysis-results entity on two physical lines, with the joint inside
  the first free-text field and a comma inside the second, and the same record for the
  competitor entity.
\<close>

definition sample_llm_two_lines :: "string list" where
  "sample_llm_two_lines =
     [''a1b2c3d4-e5f6-7890-abcd-ef1234567890,pid,claude,wid,false,2,0.10,0.80,\"first\",\"part'',
      ''second part\",\"sum, mary\",2025-02-03 04:05:06.123456+00,2025-02-03 04:05:07.123456+00,sess'']"

definition sample_competitor_two_lines :: "string list" where
  "sample_competitor_two_lines =
     [''a1b2c3d4-e5f6-7890-abcd-ef1234567890,a1b2c3d4-e5f6-7890-abcd-ef1234567891,a1b2c3d4-e5f6-7890-abcd-ef1234567892,claude,false,2,0.10,0.80,\"first\",\"part'',
      ''second part\",\"sum, mary\",2025-02-03 04:05:06.123456+00,2025-02-03 04:05:07.123456+00,pid,sess'']"

text \<open>The variables of \<open>process_file\<close> before the first line.\<close>

definition llm_init :: llm_state where
  "llm_init = \<lparr>written = [], processed_rows = 0, constraint_violations = 0,
                skipped_rows = 0, current_line = []\<rparr>"

text \<open>
  A well-formed logical record: it starts with a line that matches the record-start
  anchor, and no later line of it does.
\<close>

definition is_record_group :: "string list \<Rightarrow> bool" where
  "is_record_group g =
     (g \<noteq> [] \<and> re_match uuid_pattern (hd g) \<and>
      list_all (\<lambda>l. \<not> re_match uuid_pattern l) (tl g))"

text \<open>
  Lines after a header as \<open>readlines\<close> returns them: a stray line, a record on two
  lines, and a record on one line without a final newline.
\<close>

definition sample_body :: "string list" where
  "sample_body =
     [''stray'' @ [CHR 0x0A],
      ''a1b2c3d4-e5f6-7890-abcd-ef1234567890,x'' @ [CHR 0x0A],
      ''continued'' @ [CHR 0x0D, CHR 0x0A],
      ''a1b2c3d4-e5f6-7890-abcd-ef1234567891,y'']"

text \<open>The competitor record with timestamps at an offset west of UTC.\<close>

definition sample_competitor_line_west :: string where
  "sample_competitor_line_west = ''a1b2c3d4-e5f6-7890-abcd-ef1234567890,a1b2c3d4-e5f6-7890-abcd-ef1234567891,a1b2c3d4-e5f6-7890-abcd-ef1234567892,chatgpt,true,1,0.50,0.90,\"hello\",\"world\",2025-01-01 00:00:00.000000-05,2025-01-02 00:00:00.000000-05,pid,sid''"

text \<open>
  The scenario line of the analysis-results entity with its identifier in upper-case
  hexadecimal digits.
\<close>

definition sample_llm_line_upper :: string where
  "sample_llm_line_upper = ''A1B2C3D4-E5F6-7890-ABCD-EF1234567891,pid,chatgpt,wid,true,1,0.50,0.90,\"hello\",\"world\",2025-01-01 00:00:00.000000+00,2025-01-01 00:00:00.000000+00,''"

text \<open>
  A competitor record whose parent reference \<open>llm_analysis_id\<close> is another identifier,
  and the 14 fields it resolves to.
\<close>

definition sample_orphan_line :: string where
  "sample_orphan_line = ''b1b2c3d4-e5f6-7890-abcd-ef1234567890,a1b2c3d4-e5f6-7890-abcd-ef1234567891,ffffffff-ffff-ffff-ffff-ffffffffffff,claude,false,2,0.10,0.80,\"no\",\"parent\",2025-03-01 00:00:00.000000+00,2025-03-02 00:00:00.000000+00,pid,sid''"

definition sample_orphan_record :: "string list" where
  "sample_orphan_record =
     [''b1b2c3d4-e5f6-7890-abcd-ef1234567890'', ''a1b2c3d4-e5f6-7890-abcd-ef1234567891'',
      ''ffffffff-ffff-ffff-ffff-ffffffffffff'', ''claude'', ''false'', ''2'', ''0.10'', ''0.80'',
      ''no'', ''parent'', ''2025-03-01 00:00:00.000000+00'', ''2025-03-02 00:00:00.000000+00'',
      ''pid'', ''sid'']"

text \<open>
  A competitor file as \<open>readlines\<close> returns it: the header, a record whose parent is
  missing, a record whose parent is present, and the first record again.
\<close>

definition sample_competitor_file :: "string list" where
  "sample_competitor_file =
     [''header'' @ [CHR 0x0A], sample_orphan_line @ [CHR 0x0A],
      sample_competitor_line @ [CHR 0x0A], sample_orphan_line @ [CHR 0x0A]]"

text \<open>
  A competitor record whose \<open>response_text\<close> quotes a timestamp: three matches of
  \<open>timestamp_pattern\<close> after the fixed prefix.
\<close>

definition sample_competitor_line_quoted :: string where
  "sample_competitor_line_quoted = ''a1b2c3d4-e5f6-7890-abcd-ef1234567890,a1b2c3d4-e5f6-7890-abcd-ef1234567891,a1b2c3d4-e5f6-7890-abcd-ef1234567892,chatgpt,true,1,0.50,0.90,\"seen 2024-12-31 23:59:59.5+00 here\",\"world\",2025-01-01 00:00:00.000000+00,2025-01-02 00:00:00.000000+00,pid,sid''"

section \<open>Counters of the competitor scripts\<close>









section \<open>Arity of the accepted records\<close>


lemma process_record_lines_length:
  "process_record_lines ls = Some r \<Longrightarrow> length r = 13"
  by (auto simp: process_record_lines_def Let_def split: if_splits)

lemma final_process_arity:
  assumes "\<forall>r \<in> set (fs_records st). length r = 13"
  shows "\<forall>r \<in> set (fs_records (final_process process_record_lines st)). length r = 13"
  using assms
  by (auto simp: final_process_def process_record_lines_length split: option.splits)

lemma final_step_arity:
  assumes "\<forall>r \<in> set (fs_records st). length r = 13"
  shows "\<forall>r \<in> set (fs_records (final_step process_record_lines st raw)). length r = 13"
  using final_process_arity [OF assms] assms
  by (simp add: final_step_def Let_def)

lemma final_foldl_arity:
  "\<forall>r \<in> set (fs_records st). length r = 13 \<Longrightarrow>
   \<forall>r \<in> set (fs_records (foldl (final_step process_record_lines) st body)). length r = 13"
proof (induction body arbitrary: st)
  case Nil
  then show ?case by simp
next
  case (Cons raw body)
  show ?case
    using Cons.IH [OF final_step_arity [OF Cons.prems]] by simp
qed

lemma final_loop_arity:
  "\<forall>r \<in> set (fs_records (final_loop process_record_lines body)). length r = 13"
  unfolding final_loop_def
  by (rule final_process_arity, rule final_foldl_arity) (simp add: final_init_def)

lemma clean_process_arity:
  assumes "\<forall>r \<in> set (cs_records st). length r = 13"
  shows "\<forall>r \<in> set (cs_records (clean_process R st)). length r = 13"
  using assms by (auto simp: clean_process_def split: option.splits)

lemma clean_step_arity:
  assumes "\<forall>r \<in> set (cs_records st). length r = 13"
  shows "\<forall>r \<in> set (cs_records (clean_step R st raw)). length r = 13"
  using clean_process_arity [OF assms] assms
  by (simp add: clean_step_def Let_def)

lemma clean_for_arity:
  "\<forall>r \<in> set (cs_records st). length r = 13 \<Longrightarrow>
   \<forall>r \<in> set (cs_records (clean_for m R st body)). length r = 13"
proof (induction body arbitrary: st)
  case Nil
  then show ?case by simp
next
  case (Cons raw body)
  show ?case
    using Cons.IH [OF clean_step_arity [OF Cons.prems]] Cons.prems by simp
qed

lemma clean_loop_arity:
  "\<forall>r \<in> set (cs_records (clean_loop m R body)). length r = 13"
  unfolding clean_loop_def
  by (rule clean_process_arity, rule clean_for_arity) (simp add: clean_init_def)

lemma fk_check_arity:
  assumes "\<forall>r \<in> set (records st). length r = 14" and "length record = 14"
  shows "\<forall>r \<in> set (records (fk_check V st record)). length r = 14"
  using assms by (simp add: fk_check_def Let_def)

lemma comp_process_arity:
  assumes "\<forall>r \<in> set (records st). length r = 14"
  shows "\<forall>r \<in> set (records (comp_process R V st)). length r = 14"
  using assms fk_check_arity [OF assms]
  by (auto simp: comp_process_def split: option.splits)

lemma comp_process_last_arity:
  assumes "\<forall>r \<in> set (records st). length r = 14"
  shows "\<forall>r \<in> set (records (comp_process_last R V st)). length r = 14"
  using assms fk_check_arity [OF assms]
  by (auto simp: comp_process_last_def split: option.splits)

lemma comp_foldl_arity:
  assumes f: "\<And>s. \<forall>r \<in> set (records s). length r = 14 \<Longrightarrow> \<forall>r \<in> set (records (f s)). length r = 14"
  shows "\<forall>r \<in> set (records st). length r = 14 \<Longrightarrow>
   \<forall>r \<in> set (records (foldl (comp_step f) st body)). length r = 14"
proof (induction body arbitrary: st)
  case Nil
  then show ?case by simp
next
  case (Cons raw body)
  have "\<forall>r \<in> set (records (comp_step f st raw)). length r = 14"
    using f [OF Cons.prems] Cons.prems by (simp add: comp_step_def Let_def)
  from Cons.IH [OF this] show ?case by simp
qed

lemma comp_loop_arity:
  "\<forall>r \<in> set (records (comp_loop R V body)). length r = 14"
  unfolding comp_loop_def comp_for_def
  by (rule comp_process_last_arity, rule comp_foldl_arity)
     (simp_all add: comp_init_def comp_process_arity)

lemma comp_final_loop_arity:
  "\<forall>r \<in> set (records (comp_final_loop R V body)). length r = 14"
  unfolding comp_final_loop_def comp_final_for_def
  by (rule comp_process_last_arity, rule comp_foldl_arity)
     (simp_all add: comp_init_def comp_process_last_arity)

text \<open>
  C5.  Every record a script keeps for its writer has exactly the arity of its schema:
  13 fields in \<open>fix_csv_final\<close> and \<open>create_clean_csv\<close> (analysis results), 14 fields
  in \<open>fix_competitor_csv\<close> and \<open>fix_competitor_csv_final\<close> (competitor analysis).
\<close>

theorem accepted_records_have_schema_arity:
  "(\<forall>h recs n. fix_csv_final lines = Some (h, recs, n) \<longrightarrow>
       (\<forall>r \<in> set recs. length r = 13)) \<and>
   (\<forall>r \<in> set (fst (create_clean_csv lines max_records)). length r = 13) \<and>
   (\<forall>r \<in> set (records (fix_competitor_csv lines valid_llm_ids)). length r = 14) \<and>
   (\<forall>r \<in> set (records (fix_competitor_csv_final lines valid_llm_ids)). length r = 14)"
proof (intro conjI allI impI)
  fix h recs n
  assume "fix_csv_final lines = Some (h, recs, n)"
  then have "\<exists>body. recs = fs_records (final_loop process_record_lines body)"
    by (auto simp: fix_csv_final_def Let_def split: list.splits)
  then show "\<forall>r \<in> set recs. length r = 13"
    using final_loop_arity by blast
next
  show "\<forall>r \<in> set (fst (create_clean_csv lines max_records)). length r = 13"
    using clean_loop_arity by (simp add: create_clean_csv_def Let_def)
next
  show "\<forall>r \<in> set (records (fix_competitor_csv lines valid_llm_ids)). length r = 14"
    unfolding fix_competitor_csv_def by (rule comp_loop_arity)
next
  show "\<forall>r \<in> set (records (fix_competitor_csv_final lines valid_llm_ids)). length r = 14"
    unfolding fix_competitor_csv_final_def by (rule comp_final_loop_arity)
qed

theorem accepted_records_have_schema_arity_witness:
  "fix_csv_final [''header'', sample_llm_line] =
     Some ([''header''],
           [[''a1b2c3d4-e5f6-7890-abcd-ef1234567890'', ''pid'', ''chatgpt'', ''wid'', ''true'',
             ''1'', ''0.50'', ''0.90'', ''hello'', ''world\"'',
             ''2025-01-01 00:00:00.000000+00'', ''2025-01-01 00:00:00.000000+00'', []]], 1) \<and>
   fst (create_clean_csv [''header'', sample_llm_line] None) \<noteq> [] \<and>
   length (hd (fst (create_clean_csv [''header'', sample_llm_line] None))) = 13 \<and>
   records (fix_competitor_csv [''header'', sample_competitor_line]
              {''a1b2c3d4-e5f6-7890-abcd-ef1234567892''}) = [sample_competitor_record] \<and>
   records (fix_competitor_csv_final [''header'', sample_competitor_line]
              {''a1b2c3d4-e5f6-7890-abcd-ef1234567892''}) = [sample_competitor_record] \<and>
   length sample_competitor_record = 14"
proof -
  have a: "fix_csv_final [''header'', sample_llm_line] =
     Some ([''header''],
           [[''a1b2c3d4-e5f6-7890-abcd-ef1234567890'', ''pid'', ''chatgpt'', ''wid'', ''true'',
             ''1'', ''0.50'', ''0.90'', ''hello'', ''world\"'',
             ''2025-01-01 00:00:00.000000+00'', ''2025-01-01 00:00:00.000000+00'', []]], 1)"
    by code_simp
  have b: "fst (create_clean_csv [''header'', sample_llm_line] None) \<noteq> []"
    by code_simp
  have c: "records (fix_competitor_csv [''header'', sample_competitor_line]
              {''a1b2c3d4-e5f6-7890-abcd-ef1234567892''}) = [sample_competitor_record]"
    by code_simp
  have d: "records (fix_competitor_csv_final [''header'', sample_competitor_line]
              {''a1b2c3d4-e5f6-7890-abcd-ef1234567892''}) = [sample_competitor_record]"
    by code_simp
  show ?thesis
    using a b c d
      accepted_records_have_schema_arity
        [of "[''header'', sample_llm_line]" None "{''a1b2c3d4-e5f6-7890-abcd-ef1234567892''}"]
      accepted_records_have_schema_arity
        [of "[''header'', sample_competitor_line]" None
            "{''a1b2c3d4-e5f6-7890-abcd-ef1234567892''}"]
    by (simp add: hd_in_set)
qed

section \<open>Splitting the text span\<close>

lemma startswith_iff: "startswith s p \<longleftrightarrow> (\<exists>t. s = p @ t)"
  by (induction s p rule: startswith.induct) auto

lemma rfind_str_None:
  "rfind_str s sub = None \<Longrightarrow> j \<le> length s \<Longrightarrow> \<not> startswith (drop j s) sub"
proof (induction s arbitrary: j)
  case Nil
  then show ?case by (cases sub) (auto split: if_splits)
next
  case (Cons x xs)
  from Cons.prems(1) have n: "rfind_str xs sub = None" and h: "\<not> startswith (x # xs) sub"
    by (auto split: option.splits if_splits)
  show ?case
  proof (cases j)
    case 0
    then show ?thesis using h by simp
  next
    case (Suc j')
    then show ?thesis using Cons.IH [OF n, of j'] Cons.prems(2) by simp
  qed
qed

lemma rfind_str_Some:
  "rfind_str s sub = Some i \<Longrightarrow>
   i \<le> length s \<and> startswith (drop i s) sub \<and>
   (\<forall>j. i < j \<and> j \<le> length s \<longrightarrow> \<not> startswith (drop j s) sub)"
proof (induction s arbitrary: i)
  case Nil
  then show ?case by (auto split: if_splits)
next
  case (Cons x xs)
  show ?case
  proof (cases "rfind_str xs sub")
    case None
    then have i: "i = 0" and h: "startswith (x # xs) sub"
      using Cons.prems by (auto split: if_splits)
    have "\<not> startswith (drop j (x # xs)) sub" if jpos: "(0::nat) < j" and jle: "j \<le> length (x # xs)" for j
    proof (cases j)
      case 0
      then show ?thesis using jpos by simp
    next
      case (Suc j')
      then show ?thesis using rfind_str_None [OF None, of j'] jle by simp
    qed
    then show ?thesis using i h by simp
  next
    case (Some i')
    then have i: "i = Suc i'" using Cons.prems by simp
    have ih: "i' \<le> length xs \<and> startswith (drop i' xs) sub \<and>
        (\<forall>j. i' < j \<and> j \<le> length xs \<longrightarrow> \<not> startswith (drop j xs) sub)"
      using Cons.IH [OF Some] .
    have "\<not> startswith (drop j (x # xs)) sub" if jgt: "i < j" and jle: "j \<le> length (x # xs)" for j
    proof (cases j)
      case 0
      then show ?thesis using jgt by simp
    next
      case (Suc j')
      then have "i' < j' \<and> j' \<le> length xs" using jgt jle i by simp
      then show ?thesis using ih Suc by simp
    qed
    then show ?thesis using i ih by simp
  qed
qed

lemma find_str_None_iff:
  "find_str s sub = None \<longleftrightarrow> (\<forall>j \<le> length s. \<not> startswith (drop j s) sub)"
proof (induction s)
  case Nil
  then show ?case by (cases sub) auto
next
  case (Cons x xs)
  have "(\<forall>j \<le> length (x # xs). \<not> startswith (drop j (x # xs)) sub) \<longleftrightarrow>
        \<not> startswith (x # xs) sub \<and> (\<forall>j \<le> length xs. \<not> startswith (drop j xs) sub)"
  proof
    assume a: "\<forall>j \<le> length (x # xs). \<not> startswith (drop j (x # xs)) sub"
    have "\<not> startswith (x # xs) sub" using a [rule_format, of 0] by simp
    moreover have "\<not> startswith (drop j xs) sub" if "j \<le> length xs" for j
      using a [rule_format, of "Suc j"] that by simp
    ultimately show "\<not> startswith (x # xs) sub \<and> (\<forall>j \<le> length xs. \<not> startswith (drop j xs) sub)"
      by blast
  next
    assume a: "\<not> startswith (x # xs) sub \<and> (\<forall>j \<le> length xs. \<not> startswith (drop j xs) sub)"
    show "\<forall>j \<le> length (x # xs). \<not> startswith (drop j (x # xs)) sub"
    proof (intro allI impI)
      fix j assume "j \<le> length (x # xs)"
      then show "\<not> startswith (drop j (x # xs)) sub" using a by (cases j) auto
    qed
  qed
  then show ?case using Cons.IH by simp
qed

lemma contains_iff_rfind: "contains s sub \<longleftrightarrow> rfind_str s sub \<noteq> None"
proof
  assume "contains s sub"
  then obtain j where j: "j \<le> length s" "startswith (drop j s) sub"
    using find_str_None_iff [of s sub] by (auto simp: contains_def)
  show "rfind_str s sub \<noteq> None"
  proof
    assume "rfind_str s sub = None"
    from rfind_str_None [OF this j(1)] j(2) show False by simp
  qed
next
  assume "rfind_str s sub \<noteq> None"
  then obtain i where "rfind_str s sub = Some i" by auto
  from rfind_str_Some [OF this] have "i \<le> length s \<and> startswith (drop i s) sub" by simp
  then show "contains s sub"
    using find_str_None_iff [of s sub] by (auto simp: contains_def)
qed

text \<open>
  \<open>rsplit1\<close> at the joint: when the joint occurs, the two parts are what stands before
  and after its last occurrence; otherwise the result has one element.
\<close>

lemma rsplit1_last_joint:
  assumes "contains s joint"
  shows "\<exists>l r. rsplit1 s joint = [l, r] \<and> s = l @ joint @ r \<and>
               (\<forall>j. length l < j \<and> j \<le> length s \<longrightarrow> \<not> startswith (drop j s) joint)"
proof -
  obtain i where i: "rfind_str s joint = Some i"
    using assms contains_iff_rfind by auto
  from rfind_str_Some [OF i]
  have le: "i \<le> length s" and sw: "startswith (drop i s) joint"
    and last: "\<forall>j. i < j \<and> j \<le> length s \<longrightarrow> \<not> startswith (drop j s) joint"
    by simp_all
  obtain t where t: "drop i s = joint @ t" using sw startswith_iff by blast
  have "drop (i + length joint) s = drop (length joint) (drop i s)"
    by (simp add: add.commute)
  then have d: "drop (i + length joint) s = t" using t by simp
  have "s = take i s @ drop i s" by simp
  then have s: "s = take i s @ joint @ t" using t by simp
  have l: "length (take i s) = i" using le by simp
  show ?thesis
    using i d s l last by (intro exI [of _ "take i s"] exI [of _ t]) (simp add: rsplit1_def)
qed

lemma rsplit1_no_joint: "\<not> contains s joint \<Longrightarrow> rsplit1 s joint = [s]"
  using contains_iff_rfind [of s joint] by (simp add: rsplit1_def)

lemma rsplit1_length: "length (rsplit1 s joint) = 2 \<longleftrightarrow> contains s joint"
  using contains_iff_rfind [of s joint] by (auto simp: rsplit1_def split: option.splits)

text \<open>
  C1.  On a two-line record whose text span is
  \<open>"first","part second part","sum, mary"\<close>, \<open>process_record_lines\<close> of
  \<open>fix_csv_final.py\<close> splits at the last of the two joints and strips the quote of the
  left part, but strips only whitespace from the right part: \<open>summary_text\<close> keeps its
  closing quote.  \<open>parse_competitor_record\<close> and \<open>parse_competitor_record_robust\<close>
  strip the quote on both sides of the same span.
\<close>

theorem summary_quote_kept_by_fix_csv_final:
  "process_record_lines sample_llm_two_lines =
     Some [''a1b2c3d4-e5f6-7890-abcd-ef1234567890'', ''pid'', ''claude'', ''wid'', ''false'',
           ''2'', ''0.10'', ''0.80'', ''first\",\"part second part'', ''sum, mary\"'',
           ''2025-02-03 04:05:06.123456+00'', ''2025-02-03 04:05:07.123456+00'', ''sess''] \<and>
   parse_competitor_record sample_competitor_two_lines timestamp_pattern =
     Some [''a1b2c3d4-e5f6-7890-abcd-ef1234567890'', ''a1b2c3d4-e5f6-7890-abcd-ef1234567891'',
           ''a1b2c3d4-e5f6-7890-abcd-ef1234567892'', ''claude'', ''false'',
           ''2'', ''0.10'', ''0.80'', ''first\",\"part second part'', ''sum, mary'',
           ''2025-02-03 04:05:06.123456+00'', ''2025-02-03 04:05:07.123456+00'',
           ''pid'', ''sess''] \<and>
   parse_competitor_record_robust sample_competitor_two_lines timestamp_pattern =
     parse_competitor_record sample_competitor_two_lines timestamp_pattern"
  by code_simp

section \<open>The scenario line\<close>

text \<open>
  C4.  The scenario line of the specification, as a one-line record: both resolvers of
  the analysis-results entity return 13 fields with \<open>response_text\<close> \<open>hello\<close>;
  \<open>parse_record_lines\<close> of \<open>create_clean_csv.py\<close> returns \<open>summary_text\<close> \<open>world\<close>,
  \<open>process_record_lines\<close> of \<open>fix_csv_final.py\<close> returns \<open>world"\<close> with the closing
  quote.
\<close>

theorem scenario_line_resolution:
  "process_record_lines [sample_llm_line] =
     Some [''a1b2c3d4-e5f6-7890-abcd-ef1234567890'', ''pid'', ''chatgpt'', ''wid'', ''true'',
           ''1'', ''0.50'', ''0.90'', ''hello'', ''world\"'',
           ''2025-01-01 00:00:00.000000+00'', ''2025-01-01 00:00:00.000000+00'', []] \<and>
   parse_record_lines [sample_llm_line] =
     Some [''a1b2c3d4-e5f6-7890-abcd-ef1234567890'', ''pid'', ''chatgpt'', ''wid'', ''true'',
           ''1'', ''0.50'', ''0.90'', ''hello'', ''world'',
           ''2025-01-01 00:00:00.000000+00'', ''2025-01-01 00:00:00.000000+00'', []]"
  by code_simp

section \<open>The optional identifier\<close>

text \<open>
  In general: the check of the optional identifier changes neither the verdict nor the
  errors, and the row that is written carries the identifier of the row that was read.
\<close>

lemma optional_uuid_check_only_warns:
  "is_valid (fst (check_optional_uuid row_dict v)) = is_valid v \<and>
   errors (fst (check_optional_uuid row_dict v)) = errors v"
  by (simp add: check_optional_uuid_def add_warning_def)

lemma written_row_keeps_session_id:
  "length row = 13 \<Longrightarrow>
   last (written (process_parsed_row to_int to_float st row)) ! 12 = row ! 12"
  by (simp add: process_parsed_row_def Let_def)

lemma validate_row_empty_numbers:
  assumes "strip (row ! 5) = []" and "strip (row ! 6) = []" and "strip (row ! 7) = []"
  shows "validate_row to_int to_float row = validate_row to_int' to_float' row"
  using assms
  by (simp add: validate_row_def check_optional_uuid_def check_rank_def check_sentiment_def
        check_confidence_def)

text \<open>
  C7.  For a row whose \<open>analysis_session_id\<close> is \<open>not-a-uuid\<close>, whatever \<open>int\<close> and
  \<open>float\<close> do: \<open>validate_row\<close> keeps the verdict valid and records one warning, and at
  its end \<open>row_dict\<close> holds the empty string in that column; the row that
  \<open>process_file\<close> writes still holds \<open>not-a-uuid\<close> there.
\<close>

theorem invalid_optional_uuid_reaches_output:
  "\<forall>to_int to_float.
     validate_row to_int to_float sample_bad_session_row =
       (\<lparr>is_valid = True, errors = [], warnings = [InvalidOptionalUUID ''not-a-uuid'']\<rparr>,
        sample_bad_session_row[12 := []]) \<and>
     written (process_parsed_row to_int to_float llm_init sample_bad_session_row) =
       [sample_bad_session_row] \<and>
     sample_bad_session_row ! 12 = ''not-a-uuid''"
proof (intro allI)
  fix to_int :: "string \<Rightarrow> int option" and to_float :: "string \<Rightarrow> pyfloat option"
  have e5: "strip (sample_bad_session_row ! 5) = []" by code_simp
  have e6: "strip (sample_bad_session_row ! 6) = []" by code_simp
  have e7: "strip (sample_bad_session_row ! 7) = []" by code_simp
  have v0: "validate_row (\<lambda>s. None) (\<lambda>s. None) sample_bad_session_row =
       (\<lparr>is_valid = True, errors = [], warnings = [InvalidOptionalUUID ''not-a-uuid'']\<rparr>,
        sample_bad_session_row[12 := []])"
    by code_simp
  have v: "validate_row to_int to_float sample_bad_session_row =
       (\<lparr>is_valid = True, errors = [], warnings = [InvalidOptionalUUID ''not-a-uuid'']\<rparr>,
        sample_bad_session_row[12 := []])"
    using v0 validate_row_empty_numbers [OF e5 e6 e7, of to_int to_float "\<lambda>s. None" "\<lambda>s. None"]
    by simp
  have h: "clean_text_field ''hello'' = (''hello'', False)"
    by (simp add: clean_text_field_def escape_text_def replace_char_def)
  have w: "clean_text_field ''world'' = (''world'', False)"
    by (simp add: clean_text_field_def escape_text_def replace_char_def)
  have p: "written (process_parsed_row to_int to_float llm_init sample_bad_session_row) =
       [sample_bad_session_row]"
    unfolding process_parsed_row_def v
    by (simp add: sample_bad_session_row_def llm_init_def Let_def h w)
  have s: "sample_bad_session_row ! 12 = ''not-a-uuid''"
    by (simp add: sample_bad_session_row_def)
  show "validate_row to_int to_float sample_bad_session_row =
       (\<lparr>is_valid = True, errors = [], warnings = [InvalidOptionalUUID ''not-a-uuid'']\<rparr>,
        sample_bad_session_row[12 := []]) \<and>
     written (process_parsed_row to_int to_float llm_init sample_bad_session_row) =
       [sample_bad_session_row] \<and>
     sample_bad_session_row ! 12 = ''not-a-uuid''"
    using v p s by simp
qed

section \<open>Truncation of long fields\<close>

lemma replace_char_append:
  "replace_char c new (xs @ ys) = replace_char c new xs @ replace_char c new ys"
  by (simp add: replace_char_def)

lemma replace_char_replicate:
  "x \<noteq> c \<Longrightarrow> replace_char c new (replicate n x) = replicate n x"
  by (induction n) (simp_all add: replace_char_def)

lemma escape_text_replicate_a:
  "escape_text (replicate n CHR ''a'') = replicate n CHR ''a''"
  by (simp add: escape_text_def replace_char_replicate)

lemma escape_text_append:
  "escape_text (xs @ ys) = escape_text xs @ escape_text ys"
  by (simp add: escape_text_def replace_char_append)

lemma escape_text_nul: "escape_text [CHR 0x00] = []"
  by (simp add: escape_text_def replace_char_def)

text \<open>
  C8, as stated, fails: a field of 50,001 characters, 50,000 letters and one NUL, is
  longer than the cap and comes back as its 50,000 letters without the marker, since
  the length is tested after the replacements.
\<close>

theorem long_field_not_truncated_counterexample:
  "length (replicate 50000 CHR ''a'' @ [CHR 0x00]) = 50001 \<and>
   clean_text_field (replicate 50000 CHR ''a'' @ [CHR 0x00]) = (replicate 50000 CHR ''a'', False)"
proof -
  have "escape_text (replicate 50000 CHR ''a'' @ [CHR 0x00]) = replicate 50000 CHR ''a''"
    by (simp add: escape_text_append escape_text_replicate_a escape_text_nul)
  then show ?thesis
    by (simp add: clean_text_field_def Let_def)
qed

text \<open>
  C8, amended.  The cap applies to the text after the replacements (NUL removed,
  newline and carriage return escaped, quotes doubled): when that text is longer than
  50,000 characters the result is its first 50,000 characters followed by the marker,
  50,015 characters in all, and a warning is logged; otherwise the result is that text,
  whole, and nothing is logged.
\<close>

theorem clean_text_field_truncation:
  "(length (escape_text text) > 50000 \<longrightarrow>
      clean_text_field text = (take 50000 (escape_text text) @ truncation_marker, True) \<and>
      length (fst (clean_text_field text)) = 50015) \<and>
   (length (escape_text text) \<le> 50000 \<longrightarrow>
      clean_text_field text = (escape_text text, False))"
proof -
  have e: "escape_text [] = []" by (simp add: escape_text_def replace_char_def)
  have m: "length truncation_marker = 15" by (simp add: truncation_marker_def)
  show ?thesis
    by (cases "text = []") (auto simp: clean_text_field_def Let_def e m)
qed

theorem clean_text_field_truncation_witness:
  "clean_text_field (replicate 50001 CHR ''a'') =
     (replicate 50000 CHR ''a'' @ ''... [TRUNCATED]'', True) \<and>
   clean_text_field ''a\"b'' = (''a\"\"b'', False)"
proof -
  have a: "length (escape_text (replicate 50001 CHR ''a'')) > 50000"
    by (simp add: escape_text_replicate_a)
  have b: "length (escape_text ''a\"b'') \<le> 50000"
    by (simp add: escape_text_def replace_char_def)
  have c: "escape_text ''a\"b'' = ''a\"\"b''"
    by (simp add: escape_text_def replace_char_def)
  show ?thesis
    using a b c clean_text_field_truncation [of "replicate 50001 CHR ''a''"]
      clean_text_field_truncation [of "''a\"b''"]
    by (simp add: escape_text_replicate_a truncation_marker_def)
qed

section \<open>The Record Segmenter\<close>

subsection \<open>The loops process the records of the segmentation\<close>

lemma segment_from_nonempty: "cur \<noteq> [] \<Longrightarrow> segment_from cur ls \<noteq> []"
  by (induction ls arbitrary: cur) auto

lemma loop_segments:
  fixes get :: "'s \<Rightarrow> string list" and put :: "'s \<Rightarrow> string list \<Rightarrow> 's"
    and flush :: "'s \<Rightarrow> 's" and step :: "'s \<Rightarrow> string \<Rightarrow> 's"
  assumes gp: "\<And>s c. get (put s c) = c"
    and pp: "\<And>s c d. put (put s c) d = put s d"
    and pg: "\<And>s. put s (get s) = s"
    and fl: "\<And>s. get s = [] \<Longrightarrow> flush s = s"
    and st: "\<And>s raw. step s raw =
               (let line = rstrip_newline raw
                in if re_match uuid_pattern line then put (flush s) [line]
                   else if get s \<noteq> [] then put s (get s @ [line]) else s)"
  shows "foldl step s body =
           (let G = segment_from (get s) (map rstrip_newline body)
            in if G = [] then s
               else put (foldl (\<lambda>s g. flush (put s g)) s (butlast G)) (last G))"
proof -
  define F where "F = (\<lambda>s g. flush (put s g))"
  have Fput: "put (foldl F (put s c) X) d = put (foldl F s X) d" for s c d X
    by (cases X) (simp_all add: F_def pp)
  have "foldl step s body =
           (let G = segment_from (get s) (map rstrip_newline body)
            in if G = [] then s else put (foldl F s (butlast G)) (last G))"
  proof (induction body arbitrary: s)
    case Nil
    show ?case by (simp add: pg Let_def)
  next
    case (Cons raw body)
    let ?l = "rstrip_newline raw"
    let ?ls = "map rstrip_newline body"
    show ?case
    proof (cases "re_match uuid_pattern ?l")
      case True
      let ?s1 = "put (flush s) [?l]"
      let ?G1 = "segment_from [?l] ?ls"
      have ne: "?G1 \<noteq> []" by (rule segment_from_nonempty) simp
      have step: "step s raw = ?s1" using True by (simp add: st)
      have ih: "foldl step ?s1 body = put (foldl F ?s1 (butlast ?G1)) (last ?G1)"
        using Cons.IH [of ?s1] ne by (simp add: gp Let_def)
      have a: "put (foldl F ?s1 (butlast ?G1)) (last ?G1)
             = put (foldl F (flush s) (butlast ?G1)) (last ?G1)"
        by (rule Fput)
      show ?thesis
      proof (cases "get s = []")
        case True
        then have "flush s = s" by (rule fl)
        then show ?thesis
          using \<open>re_match uuid_pattern ?l\<close> True ne step ih a by (simp add: Let_def)
      next
        case False
        have "foldl F s (get s # butlast ?G1) = foldl F (flush s) (butlast ?G1)"
          by (simp add: F_def pg)
        then show ?thesis
          using \<open>re_match uuid_pattern ?l\<close> False ne step ih a
          by (simp add: butlast_append Let_def)
      qed
    next
      case nm: False
      show ?thesis
      proof (cases "get s = []")
        case True
        then have "step s raw = s" using nm by (simp add: st)
        then show ?thesis using Cons.IH [of s] nm True by (simp add: Let_def)
      next
        case False
        let ?s2 = "put s (get s @ [?l])"
        let ?G2 = "segment_from (get s @ [?l]) ?ls"
        have ne: "?G2 \<noteq> []" by (rule segment_from_nonempty) simp
        have step: "step s raw = ?s2" using nm False by (simp add: st)
        have ih: "foldl step ?s2 body = put (foldl F ?s2 (butlast ?G2)) (last ?G2)"
          using Cons.IH [of ?s2] ne by (simp add: gp Let_def)
        have a: "put (foldl F ?s2 (butlast ?G2)) (last ?G2)
               = put (foldl F s (butlast ?G2)) (last ?G2)"
          by (rule Fput)
        show ?thesis using nm False ne step ih a by (simp add: Let_def)
      qed
    qed
  qed
  then show ?thesis by (simp add: F_def Let_def)
qed

lemma loop_segments_flush:
  fixes get :: "'s \<Rightarrow> string list" and put :: "'s \<Rightarrow> string list \<Rightarrow> 's"
    and flush :: "'s \<Rightarrow> 's" and step :: "'s \<Rightarrow> string \<Rightarrow> 's"
  assumes gp: "\<And>s c. get (put s c) = c"
    and pp: "\<And>s c d. put (put s c) d = put s d"
    and pg: "\<And>s. put s (get s) = s"
    and fl: "\<And>s. get s = [] \<Longrightarrow> flush s = s"
    and st: "\<And>s raw. step s raw =
               (let line = rstrip_newline raw
                in if re_match uuid_pattern line then put (flush s) [line]
                   else if get s \<noteq> [] then put s (get s @ [line]) else s)"
  shows "flush (foldl step s body) =
           foldl (\<lambda>s g. flush (put s g)) s (segment_from (get s) (map rstrip_newline body))"
proof -
  let ?G = "segment_from (get s) (map rstrip_newline body)"
  let ?F = "\<lambda>s g. flush (put s g)"
  have eq: "foldl step s body =
      (if ?G = [] then s else put (foldl ?F s (butlast ?G)) (last ?G))"
    using loop_segments [of get put flush step s body, OF gp pp pg fl st]
    by (simp add: Let_def)
  show ?thesis
  proof (cases "?G = []")
    case True
    then have "get s = []" using segment_from_nonempty by blast
    then show ?thesis using True eq fl by simp
  next
    case False
    then have "foldl ?F s ?G = foldl ?F s (butlast ?G @ [last ?G])" by simp
    also have "\<dots> = flush (put (foldl ?F s (butlast ?G)) (last ?G))"
      by (simp only: foldl_append foldl.simps)
    finally show ?thesis using False eq by simp
  qed
qed

lemma is_record_group_single: "re_match uuid_pattern l \<Longrightarrow> is_record_group [l]"
  by (simp add: is_record_group_def)

lemma is_record_group_snoc:
  "is_record_group cur \<Longrightarrow> \<not> re_match uuid_pattern l \<Longrightarrow> is_record_group (cur @ [l])"
  by (cases cur) (simp_all add: is_record_group_def)

lemma segment_from_groups:
  "cur = [] \<or> is_record_group cur \<Longrightarrow> list_all is_record_group (segment_from cur ls)"
proof (induction ls arbitrary: cur)
  case Nil
  then show ?case by (cases "cur = []") simp_all
next
  case (Cons l ls)
  show ?case
  proof (cases "re_match uuid_pattern l")
    case True
    have a: "list_all is_record_group (segment_from [l] ls)"
      by (rule Cons.IH) (simp add: True is_record_group_single)
    show ?thesis
    proof (cases "cur = []")
      case True
      then show ?thesis using \<open>re_match uuid_pattern l\<close> a by simp
    next
      case False
      then have "is_record_group cur" using Cons.prems by simp
      then show ?thesis using \<open>re_match uuid_pattern l\<close> a False by simp
    qed
  next
    case False
    show ?thesis
    proof (cases "cur = []")
      case True
      have "list_all is_record_group (segment_from [] ls)"
        by (rule Cons.IH) simp
      then show ?thesis using False True by simp
    next
      case ne: False
      then have "is_record_group cur" using Cons.prems by simp
      then have "is_record_group (cur @ [l])" using False by (rule is_record_group_snoc)
      then have "list_all is_record_group (segment_from (cur @ [l]) ls)"
        using Cons.IH [of "cur @ [l]"] by simp
      then show ?thesis using False ne by simp
    qed
  qed
qed

lemma segment_from_concat:
  "concat (segment_from cur ls) =
     (if cur \<noteq> [] then cur @ ls else dropWhile (\<lambda>l. \<not> re_match uuid_pattern l) ls)"
  by (induction ls arbitrary: cur) auto

lemma segment_from_length:
  "length (segment_from cur ls) =
     (if cur \<noteq> [] then 1 else 0) + length (filter (re_match uuid_pattern) ls)"
  by (induction ls arbitrary: cur) auto

lemma segment_groups: "list_all is_record_group (segment body)"
  unfolding segment_def by (rule segment_from_groups) simp

lemma segment_nonempty_groups: "g \<in> set (segment body) \<Longrightarrow> g \<noteq> []"
  using segment_groups [of body] by (simp add: list_all_iff is_record_group_def)

subsection \<open>\<open>fix_csv_final\<close>\<close>

lemma final_process_records:
  "g \<noteq> [] \<Longrightarrow>
   fs_records (final_process R (st\<lparr>fs_current_record_lines := g\<rparr>)) =
     fs_records st @ List.map_filter (kept_final R) [g]"
  by (simp add: final_process_def kept_final_def List.map_filter_simps split: option.splits)

lemma final_groups_records:
  "\<forall>g \<in> set gs. g \<noteq> [] \<Longrightarrow>
   fs_records (foldl (\<lambda>s g. final_process R (s\<lparr>fs_current_record_lines := g\<rparr>)) st gs) =
     fs_records st @ List.map_filter (kept_final R) gs"
proof (induction gs arbitrary: st)
  case Nil
  show ?case by (simp add: List.map_filter_simps)
next
  case (Cons g gs)
  have g: "g \<noteq> []" using Cons.prems by simp
  have "fs_records (foldl (\<lambda>s g. final_process R (s\<lparr>fs_current_record_lines := g\<rparr>))
          (final_process R (st\<lparr>fs_current_record_lines := g\<rparr>)) gs) =
        fs_records (final_process R (st\<lparr>fs_current_record_lines := g\<rparr>)) @
          List.map_filter (kept_final R) gs"
    using Cons.IH Cons.prems by simp
  then show ?case
    using final_process_records [OF g, of R st]
    by (simp add: List.map_filter_simps split: option.splits)
qed

lemma final_loop_eq:
  "final_loop R body =
     foldl (\<lambda>s g. final_process R (s\<lparr>fs_current_record_lines := g\<rparr>)) final_init (segment body)"
proof -
  have "final_process R (foldl (final_step R) final_init body) =
        foldl (\<lambda>s g. final_process R (s\<lparr>fs_current_record_lines := g\<rparr>)) final_init
          (segment_from (fs_current_record_lines final_init) (map rstrip_newline body))"
    by (rule loop_segments_flush
          [of fs_current_record_lines "\<lambda>s c. s\<lparr>fs_current_record_lines := c\<rparr>"
              "final_process R" "final_step R"])
       (simp_all add: final_process_def final_step_def)
  then show ?thesis by (simp add: final_loop_def segment_def final_init_def)
qed

lemma final_loop_records:
  "fs_records (final_loop R body) = List.map_filter (kept_final R) (segment body)"
  using final_groups_records [of "segment body" R final_init] segment_nonempty_groups [of _ body]
  by (simp add: final_loop_eq final_init_def)

subsection \<open>\<open>create_clean_csv\<close>\<close>

lemma clean_for_no_limit:
  "max_records = None \<or> max_records = Some 0 \<Longrightarrow>
   clean_for max_records R st body = foldl (clean_step R) st body"
  by (induction body arbitrary: st) (auto simp: reached_max_def)

lemma clean_process_records:
  "g \<noteq> [] \<Longrightarrow>
   cs_records (clean_process R (st\<lparr>cs_current_record_lines := g\<rparr>)) =
     cs_records st @ List.map_filter (kept_clean R) [g]"
  by (simp add: clean_process_def kept_clean_def List.map_filter_simps split: option.splits)

lemma clean_groups_records:
  "\<forall>g \<in> set gs. g \<noteq> [] \<Longrightarrow>
   cs_records (foldl (\<lambda>s g. clean_process R (s\<lparr>cs_current_record_lines := g\<rparr>)) st gs) =
     cs_records st @ List.map_filter (kept_clean R) gs"
proof (induction gs arbitrary: st)
  case Nil
  show ?case by (simp add: List.map_filter_simps)
next
  case (Cons g gs)
  have g: "g \<noteq> []" using Cons.prems by simp
  have "cs_records (foldl (\<lambda>s g. clean_process R (s\<lparr>cs_current_record_lines := g\<rparr>))
          (clean_process R (st\<lparr>cs_current_record_lines := g\<rparr>)) gs) =
        cs_records (clean_process R (st\<lparr>cs_current_record_lines := g\<rparr>)) @
          List.map_filter (kept_clean R) gs"
    using Cons.IH Cons.prems by simp
  then show ?case
    using clean_process_records [OF g, of R st]
    by (simp add: List.map_filter_simps split: option.splits)
qed

lemma clean_loop_records:
  assumes "max_records = None \<or> max_records = Some 0"
  shows "cs_records (clean_loop max_records R body) = List.map_filter (kept_clean R) (segment body)"
proof -
  have "clean_process R (foldl (clean_step R) clean_init body) =
        foldl (\<lambda>s g. clean_process R (s\<lparr>cs_current_record_lines := g\<rparr>)) clean_init
          (segment_from (cs_current_record_lines clean_init) (map rstrip_newline body))"
    by (rule loop_segments_flush
          [of cs_current_record_lines "\<lambda>s c. s\<lparr>cs_current_record_lines := c\<rparr>"
              "clean_process R" "clean_step R"])
       (simp_all add: clean_process_def clean_step_def)
  then have "clean_loop max_records R body =
        foldl (\<lambda>s g. clean_process R (s\<lparr>cs_current_record_lines := g\<rparr>)) clean_init
          (segment body)"
    using clean_for_no_limit [OF assms]
    by (simp add: clean_loop_def segment_def clean_init_def)
  then show ?thesis
    using clean_groups_records [of "segment body" R clean_init]
      segment_nonempty_groups [of _ body]
    by (simp add: clean_init_def)
qed

subsection \<open>The competitor scripts\<close>

lemma comp_foldl_segments:
  assumes "\<And>s. current_record_lines s = [] \<Longrightarrow> f s = s"
  shows "foldl (comp_step f) comp_init body =
           (if segment body = [] then comp_init
            else (foldl (\<lambda>st g. f (st\<lparr>current_record_lines := g\<rparr>)) comp_init
                    (butlast (segment body)))\<lparr>current_record_lines := last (segment body)\<rparr>)"
proof -
  have "foldl (comp_step f) comp_init body =
     (let G = segment_from (current_record_lines comp_init) (map rstrip_newline body)
      in if G = [] then comp_init
         else (foldl (\<lambda>st g. f (st\<lparr>current_record_lines := g\<rparr>)) comp_init (butlast G))
                \<lparr>current_record_lines := last G\<rparr>)"
    by (rule loop_segments
          [of current_record_lines "\<lambda>s c. s\<lparr>current_record_lines := c\<rparr>" f "comp_step f"])
       (simp_all add: assms comp_step_def)
  then show ?thesis by (simp add: segment_def comp_init_def Let_def)
qed

lemma comp_loop_segments:
  "comp_loop R V body =
     comp_run_groups (comp_process R V) (comp_process_last R V) (segment body)"
proof -
  have a: "\<And>s. current_record_lines s = [] \<Longrightarrow> comp_process R V s = s"
    by (simp add: comp_process_def)
  have b: "comp_process_last R V comp_init = comp_init"
    by (simp add: comp_process_last_def comp_init_def)
  have c: "foldl (comp_step (comp_process R V)) comp_init body =
           (if segment body = [] then comp_init
            else (foldl (\<lambda>st g. comp_process R V (st\<lparr>current_record_lines := g\<rparr>)) comp_init
                    (butlast (segment body)))\<lparr>current_record_lines := last (segment body)\<rparr>)"
    by (rule comp_foldl_segments) (rule a)
  show ?thesis
    by (simp add: comp_loop_def comp_for_def comp_run_groups_def c b)
qed

lemma comp_final_loop_segments:
  "comp_final_loop R V body =
     comp_run_groups (comp_process_last R V) (comp_process_last R V) (segment body)"
proof -
  have a: "\<And>s. current_record_lines s = [] \<Longrightarrow> comp_process_last R V s = s"
    by (simp add: comp_process_last_def)
  have b: "comp_process_last R V comp_init = comp_init"
    by (simp add: comp_process_last_def comp_init_def)
  have c: "foldl (comp_step (comp_process_last R V)) comp_init body =
           (if segment body = [] then comp_init
            else (foldl (\<lambda>st g. comp_process_last R V (st\<lparr>current_record_lines := g\<rparr>))
                    comp_init (butlast (segment body)))
                   \<lparr>current_record_lines := last (segment body)\<rparr>)"
    by (rule comp_foldl_segments) (rule a)
  show ?thesis
    by (simp add: comp_final_loop_def comp_final_for_def comp_run_groups_def c b)
qed

subsection \<open>\<open>fix_csv_simple\<close>\<close>

lemma is_hex_not_space: "is_hex c \<Longrightarrow> \<not> is_space c"
  by (auto simp: is_hex_def is_space_def)

lemma anchor_head:
  assumes "re_match uuid_pattern l"
  shows "l \<noteq> [] \<and> \<not> is_space (hd l)"
proof -
  have "8 \<le> length l \<and> list_all is_hex (take 8 l)"
    using assms
    by (simp add: re_match_def uuid_pattern_def uuid_rx_def split: if_splits)
  then show ?thesis
    by (cases l) (auto simp: is_hex_not_space)
qed

lemma strip_by_nonempty:
  assumes "s \<noteq> []" and "\<not> P (hd s)"
  shows "strip_by P s \<noteq> []"
proof -
  obtain x xs where s: "s = x # xs" using assms(1) by (cases s) auto
  have "dropWhile P (rev xs @ [x]) \<noteq> []"
    using assms(2) s by (simp add: dropWhile_append)
  then show ?thesis
    using assms(2) s by (simp add: strip_by_def lstrip_by_def rstrip_by_def)
qed

lemma strip_empty: "strip [] = []"
  by (simp add: strip_def strip_by_def lstrip_by_def rstrip_by_def)

lemma join_snoc: "cur \<noteq> [] \<Longrightarrow> join sep (cur @ [x]) = join sep cur @ sep @ x"
  by (induction sep cur rule: join.induct) simp_all

lemma join_head:
  "cur \<noteq> [] \<Longrightarrow> hd cur \<noteq> [] \<Longrightarrow> join sep cur \<noteq> [] \<and> hd (join sep cur) = hd (hd cur)"
  by (induction sep cur rule: join.induct) simp_all

lemma simple_save_group:
  assumes "ss_current_record st = join '' '' cur" and "cur \<noteq> []"
    and "re_match uuid_pattern (hd cur)"
  shows "simple_save st =
           st\<lparr>ss_fixed_lines := ss_fixed_lines st @ [simple_line cur],
              ss_record_count := ss_record_count st + 1\<rparr>"
proof -
  have h: "hd cur \<noteq> [] \<and> \<not> is_space (hd (hd cur))"
    using assms(3) by (rule anchor_head)
  then have j: "join '' '' cur \<noteq> [] \<and> hd (join '' '' cur) = hd (hd cur)"
    using assms(2) join_head by blast
  have "strip (join '' '' cur) \<noteq> []"
    unfolding strip_def by (rule strip_by_nonempty) (use h j in simp_all)
  then show ?thesis
    using assms(1) by (simp add: simple_save_def simple_line_def)
qed

lemma simple_save_none:
  "ss_current_record st = [] \<Longrightarrow> simple_save st = st"
  by (simp add: simple_save_def strip_empty)

lemma simple_foldl:
  assumes "ss_current_record st = join '' '' cur"
    and "cur = [] \<or> re_match uuid_pattern (hd cur)"
  shows "ss_fixed_lines (simple_save (foldl simple_step st body)) =
           ss_fixed_lines st @ map simple_line (segment_from cur (map rstrip_newline body)) \<and>
         ss_record_count (simple_save (foldl simple_step st body)) =
           ss_record_count st + length (segment_from cur (map rstrip_newline body))"
  using assms
proof (induction body arbitrary: st cur)
  case Nil
  show ?case
  proof (cases "cur = []")
    case True
    then show ?thesis using Nil simple_save_none [of st] by simp
  next
    case False
    then show ?thesis using Nil simple_save_group [of st cur] by simp
  qed
next
  case (Cons raw body)
  let ?l = "rstrip_newline raw"
  show ?case
  proof (cases "re_match uuid_pattern ?l")
    case True
    let ?s1 = "(simple_save st)\<lparr>ss_current_record := ?l\<rparr>"
    have step: "simple_step st raw = ?s1" using True by (simp add: simple_step_def)
    have ih: "ss_fixed_lines (simple_save (foldl simple_step ?s1 body)) =
           ss_fixed_lines ?s1 @ map simple_line (segment_from [?l] (map rstrip_newline body)) \<and>
         ss_record_count (simple_save (foldl simple_step ?s1 body)) =
           ss_record_count ?s1 + length (segment_from [?l] (map rstrip_newline body))"
      by (rule Cons.IH) (simp_all add: True)
    show ?thesis
    proof (cases "cur = []")
      case e: True
      then have "simple_save st = st" using Cons.prems simple_save_none [of st] by simp
      then show ?thesis using True e step ih by simp
    next
      case False
      then have "simple_save st =
           st\<lparr>ss_fixed_lines := ss_fixed_lines st @ [simple_line cur],
              ss_record_count := ss_record_count st + 1\<rparr>"
        using Cons.prems simple_save_group [of st cur] by simp
      then show ?thesis using True False step ih by simp
    qed
  next
    case nm: False
    show ?thesis
    proof (cases "cur = []")
      case True
      then have "simple_step st raw = st" using nm Cons.prems by (simp add: simple_step_def)
      then show ?thesis using Cons.IH [of st cur] Cons.prems nm True by simp
    next
      case False
      then have a: "re_match uuid_pattern (hd cur)" using Cons.prems by simp
      then have "hd cur \<noteq> []" using anchor_head by blast
      then have ne: "ss_current_record st \<noteq> []"
        using False Cons.prems(1) join_head [of cur "'' ''"] by simp
      let ?s2 = "st\<lparr>ss_current_record := ss_current_record st @ '' '' @ ?l\<rparr>"
      have step: "simple_step st raw = ?s2" using nm ne by (simp add: simple_step_def)
      have "ss_fixed_lines (simple_save (foldl simple_step ?s2 body)) =
           ss_fixed_lines ?s2 @
             map simple_line (segment_from (cur @ [?l]) (map rstrip_newline body)) \<and>
         ss_record_count (simple_save (foldl simple_step ?s2 body)) =
           ss_record_count ?s2 + length (segment_from (cur @ [?l]) (map rstrip_newline body))"
        by (rule Cons.IH) (use False a Cons.prems(1) in \<open>simp_all add: join_snoc\<close>)
      then show ?thesis using nm False step by simp
    qed
  qed
qed

lemma fix_csv_simple_segments:
  "fix_csv_simple (header # body) =
     Some (strip header # map simple_line (segment body), length (segment body))"
  using simple_foldl
    [of "\<lparr>ss_fixed_lines = [strip header], ss_current_record = [], ss_record_count = 0\<rparr>"
        "[]" body]
  by (simp add: fix_csv_simple_def segment_def Let_def)

lemma is_hex_hexdigit: "is_hex c \<Longrightarrow> is_hexdigit c"
  by (auto simp: is_hex_def is_hexdigit_def)

lemma re_match_Lit_mono:
  assumes "\<And>t. re_match p t \<Longrightarrow> re_match q t" and "re_match (Lit c # p) s"
  shows "re_match (Lit c # q) s"
  using assms by (cases s) (auto simp: re_match_def split: if_splits)

lemma re_match_Rep_mono:
  assumes "\<And>c. P c \<Longrightarrow> Q c" and "\<And>t. re_match p t \<Longrightarrow> re_match q t"
    and "re_match (Rep P n # p) s"
  shows "re_match (Rep Q n # q) s"
proof -
  from assms(3) have a: "n \<le> length s" "list_all P (take n s)" "re_match p (drop n s)"
    by (auto simp: re_match_def split: if_splits)
  have "list_all Q (take n s)" using a(2) assms(1) by (auto simp: list_all_iff)
  moreover have "re_match q (drop n s)" using a(3) by (rule assms(2))
  ultimately show ?thesis using a(1) by (auto simp: re_match_def)
qed

lemma code_anchor_is_spec_anchor:
  "re_match uuid_pattern l \<Longrightarrow> re_match spec_anchor_pattern l"
  unfolding uuid_pattern_def uuid_rx_def spec_anchor_pattern_def append.simps
  by (erule re_match_Rep_mono [rotated 2] re_match_Lit_mono [rotated] is_hex_hexdigit
      | assumption)+

text \<open>
  C3, as stated, fails: a line whose identifier is written with upper-case hexadecimal
  digits matches the anchor the specification describes, but not the anchor of the
  code, whose character class is \<open>[0-9a-f]\<close>.  Such a line opens no record: as the
  only line after the header it is discarded and no record is written; after another
  record it is appended to that record.
\<close>

theorem upper_case_anchor_counterexample:
  "re_match spec_anchor_pattern sample_llm_line_upper \<and>
   re_match uuid_pattern sample_llm_line_upper = False \<and>
   fix_csv_final [''header'', sample_llm_line_upper] = Some ([''header''], [], 0) \<and>
   fs_current_record_lines
     (foldl (final_step process_record_lines) final_init [sample_llm_line, sample_llm_line_upper]) =
     [sample_llm_line, sample_llm_line_upper] \<and>
   current_record_lines
     (comp_for (\<lambda>ls. parse_competitor_record ls timestamp_pattern) {} [sample_llm_line_upper]) = [] \<and>
   current_record_lines
     (comp_for (\<lambda>ls. parse_competitor_record ls timestamp_pattern) {}
        [sample_llm_line, sample_llm_line_upper]) = [sample_llm_line, sample_llm_line_upper]"
  by code_simp

text \<open>
  C3, amended.  The anchor of the code is \<open>uuid_pattern\<close>: the 8-4-4-4-12 identifier
  in lower-case hexadecimal digits (\<open>[0-9a-f]\<close>) at line start, then a comma; a line
  it matches is a line the specification's anchor matches, not conversely.  For every
  resolver, \<open>fix_csv_final\<close> keeps the resolver's results on the logical records
  \<open>segment body\<close>, in order, and \<open>fix_competitor_csv\<close> runs its record block on
  exactly these records, in order.  Every logical record starts with a line matching
  the code's anchor and contains no other matching line; together, in order, the
  records are the lines from the first matching line on, so that the lines before it
  are discarded and the last record is flushed at the end of the input; there are as
  many records as matching lines.
\<close>

theorem record_segmenter_groups:
  "fs_records (final_loop R body) = List.map_filter (kept_final R) (segment body) \<and>
   comp_loop R' V body =
     comp_run_groups (comp_process R' V) (comp_process_last R' V) (segment body) \<and>
   fix_competitor_csv lines V =
     comp_run_groups (comp_process (\<lambda>ls. parse_competitor_record ls timestamp_pattern) V)
       (comp_process_last (\<lambda>ls. parse_competitor_record ls timestamp_pattern) V)
       (segment (drop 1 lines)) \<and>
   list_all is_record_group (segment body) \<and>
   concat (segment body) =
     dropWhile (\<lambda>l. \<not> re_match uuid_pattern l) (map rstrip_newline body) \<and>
   length (segment body) = length (filter (re_match uuid_pattern) (map rstrip_newline body)) \<and>
   (re_match uuid_pattern l \<longrightarrow> re_match spec_anchor_pattern l)"
proof -
  have a: "concat (segment body) =
     dropWhile (\<lambda>l. \<not> re_match uuid_pattern l) (map rstrip_newline body)"
    by (simp add: segment_def segment_from_concat)
  have b: "length (segment body) =
     length (filter (re_match uuid_pattern) (map rstrip_newline body))"
    by (simp add: segment_def segment_from_length)
  have c: "re_match uuid_pattern l \<longrightarrow> re_match spec_anchor_pattern l"
    using code_anchor_is_spec_anchor by blast
  show ?thesis
    by (intro conjI) (simp_all add: final_loop_records comp_loop_segments
          fix_competitor_csv_def segment_groups a b c)
qed

theorem record_segmenter_groups_witness:
  "segment sample_body =
     [[''a1b2c3d4-e5f6-7890-abcd-ef1234567890,x'', ''continued''],
      [''a1b2c3d4-e5f6-7890-abcd-ef1234567891,y'']] \<and>
   fs_records (final_loop (\<lambda>g. Some g) sample_body) =
     [[''a1b2c3d4-e5f6-7890-abcd-ef1234567890,x'', ''continued''],
      [''a1b2c3d4-e5f6-7890-abcd-ef1234567891,y'']] \<and>
   dropWhile (\<lambda>l. \<not> re_match uuid_pattern l) (map rstrip_newline sample_body) =
     [''a1b2c3d4-e5f6-7890-abcd-ef1234567890,x'', ''continued'',
      ''a1b2c3d4-e5f6-7890-abcd-ef1234567891,y''] \<and>
   re_match spec_anchor_pattern ''a1b2c3d4-e5f6-7890-abcd-ef1234567890,x''"
proof -
  have s: "segment sample_body =
     [[''a1b2c3d4-e5f6-7890-abcd-ef1234567890,x'', ''continued''],
      [''a1b2c3d4-e5f6-7890-abcd-ef1234567891,y'']]"
    by code_simp
  have m: "re_match uuid_pattern ''a1b2c3d4-e5f6-7890-abcd-ef1234567890,x''"
    by code_simp
  show ?thesis
    using record_segmenter_groups
            [of "\<lambda>g. Some g" sample_body "\<lambda>g. None" "{}" "[]"
                "''a1b2c3d4-e5f6-7890-abcd-ef1234567890,x''"] m
    by (simp add: s List.map_filter_simps kept_final_def)
qed

text \<open>
  C9, as stated, fails: with \<open>max_records = 1\<close> and three one-line records that all
  resolve, \<open>create_clean_csv\<close> leaves its loop before the third line and keeps two
  records, where the segmentation has three.
\<close>

theorem record_limit_counterexample:
  "length (fst (create_clean_csv
             [''header'', sample_llm_line, sample_llm_line, sample_llm_line] (Some 1))) = 2 \<and>
   length (List.map_filter (kept_clean parse_record_lines)
             (segment [sample_llm_line, sample_llm_line, sample_llm_line])) = 3"
  by code_simp

text \<open>
  C9, amended.  When \<open>create_clean_csv\<close> runs without a record limit
  (\<open>max_records\<close> is \<open>None\<close> or \<open>0\<close>), the four scripts process the same sequence
  of logical records, \<open>segment body\<close>: \<open>fix_csv_simple\<close> writes one line per record,
  \<open>fix_csv_final\<close> and \<open>create_clean_csv\<close> keep what their resolver returns on each
  record, and \<open>fix_competitor_csv\<close> runs its record block on each record.
\<close>

theorem segmenters_agree_without_record_limit:
  assumes "max_records = None \<or> max_records = Some 0"
  shows "fix_csv_simple (header # body) =
           Some (strip header # map simple_line (segment body), length (segment body)) \<and>
         fs_records (final_loop R1 body) = List.map_filter (kept_final R1) (segment body) \<and>
         cs_records (clean_loop max_records R2 body) =
           List.map_filter (kept_clean R2) (segment body) \<and>
         fst (create_clean_csv (header # body) max_records) =
           List.map_filter (kept_clean parse_record_lines) (segment body) \<and>
         comp_loop R3 V body =
           comp_run_groups (comp_process R3 V) (comp_process_last R3 V) (segment body)"
  using clean_loop_records [OF assms]
  by (simp add: fix_csv_simple_segments final_loop_records comp_loop_segments
        create_clean_csv_def Let_def)

theorem segmenters_agree_without_record_limit_witness:
  "fix_csv_simple (''id,text'' # sample_body) =
     Some ([''id,text'', ''a1b2c3d4-e5f6-7890-abcd-ef1234567890,x continued'',
            ''a1b2c3d4-e5f6-7890-abcd-ef1234567891,y''], 2) \<and>
   fst (create_clean_csv [''header'', sample_llm_line, sample_llm_line, sample_llm_line] None) =
     List.map_filter (kept_clean parse_record_lines)
       (segment [sample_llm_line, sample_llm_line, sample_llm_line]) \<and>
   length (segment [sample_llm_line, sample_llm_line, sample_llm_line]) = 3"
proof -
  have n: "(None :: int option) = None \<or> (None :: int option) = Some 0" by simp
  have s: "segment sample_body =
     [[''a1b2c3d4-e5f6-7890-abcd-ef1234567890,x'', ''continued''],
      [''a1b2c3d4-e5f6-7890-abcd-ef1234567891,y'']]"
    by code_simp
  have l1: "simple_line [''a1b2c3d4-e5f6-7890-abcd-ef1234567890,x'', ''continued''] =
     ''a1b2c3d4-e5f6-7890-abcd-ef1234567890,x continued''"
    by code_simp
  have l2: "simple_line [''a1b2c3d4-e5f6-7890-abcd-ef1234567891,y''] =
     ''a1b2c3d4-e5f6-7890-abcd-ef1234567891,y''"
    by code_simp
  have h: "strip ''id,text'' = ''id,text''" by code_simp
  have t: "length (segment [sample_llm_line, sample_llm_line, sample_llm_line]) = 3"
    by code_simp
  show ?thesis
    using segmenters_agree_without_record_limit [OF n, of "''id,text''" sample_body]
      segmenters_agree_without_record_limit
        [OF n, of "''header''" "[sample_llm_line, sample_llm_line, sample_llm_line]"]
    by (simp add: s l1 l2 h t)
qed

section \<open>Foreign-key violations\<close>

lemma comp_process_group:
  assumes "g \<noteq> []"
  shows "records (comp_process R V (st\<lparr>current_record_lines := g\<rparr>)) =
           records st @ filter (\<lambda>r. r ! 2 \<in> V) (List.map_filter (resolved_competitor R) [g]) \<and>
         fk_violations (comp_process R V (st\<lparr>current_record_lines := g\<rparr>)) =
           fk_violations st +
             length (filter (\<lambda>r. r ! 2 \<notin> V) (List.map_filter (resolved_competitor R) [g])) \<and>
         total_processed (comp_process R V (st\<lparr>current_record_lines := g\<rparr>)) =
           total_processed st + length (List.map_filter (resolved_competitor R) [g]) \<and>
         valid_records (comp_process R V (st\<lparr>current_record_lines := g\<rparr>)) =
           valid_records st +
             length (filter (\<lambda>r. r ! 2 \<in> V) (List.map_filter (resolved_competitor R) [g]))"
  using assms
  by (simp add: comp_process_def resolved_competitor_def fk_check_def Let_def
        List.map_filter_simps split: option.splits)

lemma comp_process_last_group:
  assumes "g \<noteq> []"
  shows "records (comp_process_last R V (st\<lparr>current_record_lines := g\<rparr>)) =
           records st @ filter (\<lambda>r. r ! 2 \<in> V) (List.map_filter (resolved_competitor R) [g]) \<and>
         fk_violations (comp_process_last R V (st\<lparr>current_record_lines := g\<rparr>)) =
           fk_violations st +
             length (filter (\<lambda>r. r ! 2 \<notin> V) (List.map_filter (resolved_competitor R) [g])) \<and>
         total_processed (comp_process_last R V (st\<lparr>current_record_lines := g\<rparr>)) =
           total_processed st + length (List.map_filter (resolved_competitor R) [g]) \<and>
         valid_records (comp_process_last R V (st\<lparr>current_record_lines := g\<rparr>)) =
           valid_records st +
             length (filter (\<lambda>r. r ! 2 \<in> V) (List.map_filter (resolved_competitor R) [g]))"
  using assms
  by (simp add: comp_process_last_def resolved_competitor_def fk_check_def Let_def
        List.map_filter_simps split: option.splits)

lemma map_filter_append:
  "List.map_filter f (xs @ ys) = List.map_filter f xs @ List.map_filter f ys"
  by (simp add: List.map_filter_def)

lemma comp_groups_tally:
  assumes f: "\<And>st g. g \<noteq> [] \<Longrightarrow>
      records (f (st\<lparr>current_record_lines := g\<rparr>)) =
        records st @ filter (\<lambda>r. r ! 2 \<in> V) (List.map_filter (resolved_competitor R) [g]) \<and>
      fk_violations (f (st\<lparr>current_record_lines := g\<rparr>)) =
        fk_violations st +
          length (filter (\<lambda>r. r ! 2 \<notin> V) (List.map_filter (resolved_competitor R) [g])) \<and>
      total_processed (f (st\<lparr>current_record_lines := g\<rparr>)) =
        total_processed st + length (List.map_filter (resolved_competitor R) [g]) \<and>
      valid_records (f (st\<lparr>current_record_lines := g\<rparr>)) =
        valid_records st +
          length (filter (\<lambda>r. r ! 2 \<in> V) (List.map_filter (resolved_competitor R) [g]))"
  shows "list_all (\<lambda>g. g \<noteq> []) gs \<Longrightarrow>
      records (foldl (\<lambda>st g. f (st\<lparr>current_record_lines := g\<rparr>)) st gs) =
        records st @ filter (\<lambda>r. r ! 2 \<in> V) (List.map_filter (resolved_competitor R) gs) \<and>
      fk_violations (foldl (\<lambda>st g. f (st\<lparr>current_record_lines := g\<rparr>)) st gs) =
        fk_violations st +
          length (filter (\<lambda>r. r ! 2 \<notin> V) (List.map_filter (resolved_competitor R) gs)) \<and>
      total_processed (foldl (\<lambda>st g. f (st\<lparr>current_record_lines := g\<rparr>)) st gs) =
        total_processed st + length (List.map_filter (resolved_competitor R) gs) \<and>
      valid_records (foldl (\<lambda>st g. f (st\<lparr>current_record_lines := g\<rparr>)) st gs) =
        valid_records st +
          length (filter (\<lambda>r. r ! 2 \<in> V) (List.map_filter (resolved_competitor R) gs))"
proof (induction gs arbitrary: st)
  case Nil
  show ?case by (simp add: List.map_filter_simps)
next
  case (Cons g gs)
  have g: "g \<noteq> []" and gs: "list_all (\<lambda>g. g \<noteq> []) gs" using Cons.prems by simp_all
  have split: "List.map_filter (resolved_competitor R) (g # gs) =
      List.map_filter (resolved_competitor R) [g] @ List.map_filter (resolved_competitor R) gs"
    using map_filter_append [of "resolved_competitor R" "[g]" gs] by simp
  show ?case
    unfolding split
    using Cons.IH [OF gs, of "f (st\<lparr>current_record_lines := g\<rparr>)"] f [OF g, of st]
    by simp
qed

lemma comp_run_groups_tally:
  assumes f: "\<And>st g. g \<noteq> [] \<Longrightarrow>
      records (f (st\<lparr>current_record_lines := g\<rparr>)) =
        records st @ filter (\<lambda>r. r ! 2 \<in> V) (List.map_filter (resolved_competitor R) [g]) \<and>
      fk_violations (f (st\<lparr>current_record_lines := g\<rparr>)) =
        fk_violations st +
          length (filter (\<lambda>r. r ! 2 \<notin> V) (List.map_filter (resolved_competitor R) [g])) \<and>
      total_processed (f (st\<lparr>current_record_lines := g\<rparr>)) =
        total_processed st + length (List.map_filter (resolved_competitor R) [g]) \<and>
      valid_records (f (st\<lparr>current_record_lines := g\<rparr>)) =
        valid_records st +
          length (filter (\<lambda>r. r ! 2 \<in> V) (List.map_filter (resolved_competitor R) [g]))"
    and gs: "list_all (\<lambda>g. g \<noteq> []) gs"
  shows "records (comp_run_groups f (comp_process_last R V) gs) =
        filter (\<lambda>r. r ! 2 \<in> V) (List.map_filter (resolved_competitor R) gs) \<and>
      fk_violations (comp_run_groups f (comp_process_last R V) gs) =
        length (filter (\<lambda>r. r ! 2 \<notin> V) (List.map_filter (resolved_competitor R) gs)) \<and>
      total_processed (comp_run_groups f (comp_process_last R V) gs) =
        length (List.map_filter (resolved_competitor R) gs) \<and>
      valid_records (comp_run_groups f (comp_process_last R V) gs) =
        length (filter (\<lambda>r. r ! 2 \<in> V) (List.map_filter (resolved_competitor R) gs))"
proof (cases "gs = []")
  case True
  then show ?thesis by (simp add: comp_run_groups_def comp_init_def List.map_filter_simps)
next
  case False
  then have eq: "gs = butlast gs @ [last gs]" by simp
  have bl: "list_all (\<lambda>g. g \<noteq> []) (butlast gs)"
    using gs by (simp add: list_all_iff in_set_butlastD)
  have la: "last gs \<noteq> []" using gs False by (simp add: list_all_iff)
  have split: "List.map_filter (resolved_competitor R) gs =
      List.map_filter (resolved_competitor R) (butlast gs) @
      List.map_filter (resolved_competitor R) [last gs]"
    using map_filter_append [of "resolved_competitor R" "butlast gs" "[last gs]"] eq by simp
  show ?thesis
    unfolding split
    using comp_groups_tally [of f V R "butlast gs" comp_init, OF f bl]
      comp_process_last_group [OF la, of R V
        "foldl (\<lambda>st g. f (st\<lparr>current_record_lines := g\<rparr>)) comp_init (butlast gs)"]
      False
    by (simp add: comp_run_groups_def comp_init_def)
qed

lemma segment_all_nonempty: "list_all (\<lambda>g. g \<noteq> []) (segment body)"
  using segment_nonempty_groups [of _ body] by (simp add: list_all_iff)

lemma comp_loop_tally:
  "records (comp_loop R V body) =
     filter (\<lambda>r. r ! 2 \<in> V) (List.map_filter (resolved_competitor R) (segment body)) \<and>
   fk_violations (comp_loop R V body) =
     length (filter (\<lambda>r. r ! 2 \<notin> V) (List.map_filter (resolved_competitor R) (segment body))) \<and>
   total_processed (comp_loop R V body) =
     length (List.map_filter (resolved_competitor R) (segment body)) \<and>
   valid_records (comp_loop R V body) =
     length (filter (\<lambda>r. r ! 2 \<in> V) (List.map_filter (resolved_competitor R) (segment body)))"
  unfolding comp_loop_segments
  by (rule comp_run_groups_tally [OF comp_process_group segment_all_nonempty])

lemma comp_final_loop_tally:
  "records (comp_final_loop R V body) =
     filter (\<lambda>r. r ! 2 \<in> V) (List.map_filter (resolved_competitor R) (segment body)) \<and>
   fk_violations (comp_final_loop R V body) =
     length (filter (\<lambda>r. r ! 2 \<notin> V) (List.map_filter (resolved_competitor R) (segment body))) \<and>
   total_processed (comp_final_loop R V body) =
     length (List.map_filter (resolved_competitor R) (segment body)) \<and>
   valid_records (comp_final_loop R V body) =
     length (filter (\<lambda>r. r ! 2 \<in> V) (List.map_filter (resolved_competitor R) (segment body)))"
  unfolding comp_final_loop_segments
  by (rule comp_run_groups_tally [OF comp_process_last_group segment_all_nonempty])

text \<open>
  C6.  In a run of either competitor script, let \<open>rs\<close> be the records of the input that
  resolve to a non-empty list of 14 fields, in order.  The records kept for the writer
  are exactly those of \<open>rs\<close> whose third field (\<open>llm_analysis_id\<close>) is in
  \<open>valid_llm_ids\<close>: a record of \<open>rs\<close> whose parent is missing is not among them.
  \<open>fk_violations\<close> is the number of records of \<open>rs\<close> whose parent is missing, and
  \<open>total_processed\<close> is the number of all records of \<open>rs\<close>, so that a record with a
  missing parent adds one to each.  The rows \<open>fix_competitor_csv\<close> writes are the
  records kept, and those \<open>fix_competitor_csv_final\<close> writes are their cleaned copies.
  Nothing but the lines, the resolver and the identifier set enters: no validation
  verdict is consulted.
\<close>

theorem missing_parent_is_counted_and_excluded:
  "(let rs = List.map_filter (resolved_competitor R) (segment body);
        st = comp_loop R V body
    in records st = filter (\<lambda>r. r ! 2 \<in> V) rs \<and>
       fk_violations st = length (filter (\<lambda>r. r ! 2 \<notin> V) rs) \<and>
       total_processed st = length rs \<and>
       valid_records st = length (filter (\<lambda>r. r ! 2 \<in> V) rs) \<and>
       (\<forall>r \<in> set rs. r ! 2 \<notin> V \<longrightarrow> r \<notin> set (records st))) \<and>
   (let rs = List.map_filter (resolved_competitor R) (segment body);
        st = comp_final_loop R V body
    in records st = filter (\<lambda>r. r ! 2 \<in> V) rs \<and>
       fk_violations st = length (filter (\<lambda>r. r ! 2 \<notin> V) rs) \<and>
       total_processed st = length rs \<and>
       valid_records st = length (filter (\<lambda>r. r ! 2 \<in> V) rs) \<and>
       (\<forall>r \<in> set rs. r ! 2 \<notin> V \<longrightarrow> r \<notin> set (records st))) \<and>
   (let rs = List.map_filter
               (resolved_competitor (\<lambda>ls. parse_competitor_record ls timestamp_pattern))
               (segment (drop 1 lines));
        st = fix_competitor_csv lines V
    in fix_competitor_csv_rows lines V = filter (\<lambda>r. r ! 2 \<in> V) rs \<and>
       fk_violations st = length (filter (\<lambda>r. r ! 2 \<notin> V) rs) \<and>
       total_processed st = length rs \<and>
       valid_records st = length (filter (\<lambda>r. r ! 2 \<in> V) rs) \<and>
       (\<forall>r \<in> set rs. r ! 2 \<notin> V \<longrightarrow> r \<notin> set (fix_competitor_csv_rows lines V))) \<and>
   (let rs = List.map_filter
               (resolved_competitor (\<lambda>ls. parse_competitor_record_robust ls timestamp_pattern))
               (segment (drop 1 lines));
        st = fix_competitor_csv_final lines V
    in fix_competitor_csv_final_rows lines V =
         map (map clean_output_field) (filter (\<lambda>r. r ! 2 \<in> V) rs) \<and>
       records st = filter (\<lambda>r. r ! 2 \<in> V) rs \<and>
       fk_violations st = length (filter (\<lambda>r. r ! 2 \<notin> V) rs) \<and>
       total_processed st = length rs \<and>
       valid_records st = length (filter (\<lambda>r. r ! 2 \<in> V) rs) \<and>
       (\<forall>r \<in> set rs. r ! 2 \<notin> V \<longrightarrow> r \<notin> set (records st)))"
  unfolding Let_def fix_competitor_csv_rows_def fix_competitor_csv_final_rows_def
    fix_competitor_csv_def fix_competitor_csv_final_def
  using comp_loop_tally [of R V body] comp_final_loop_tally [of R V body]
    comp_loop_tally [of "\<lambda>ls. parse_competitor_record ls timestamp_pattern" V "drop 1 lines"]
    comp_final_loop_tally
      [of "\<lambda>ls. parse_competitor_record_robust ls timestamp_pattern" V "drop 1 lines"]
  by simp

theorem missing_parent_is_counted_and_excluded_witness:
  "List.map_filter (resolved_competitor (\<lambda>ls. parse_competitor_record ls timestamp_pattern))
     (segment (drop 1 sample_competitor_file)) =
     [sample_orphan_record, sample_competitor_record, sample_orphan_record] \<and>
   fix_competitor_csv_rows sample_competitor_file {''a1b2c3d4-e5f6-7890-abcd-ef1234567892''} =
     [sample_competitor_record] \<and>
   fk_violations
     (fix_competitor_csv sample_competitor_file {''a1b2c3d4-e5f6-7890-abcd-ef1234567892''}) = 2 \<and>
   total_processed
     (fix_competitor_csv sample_competitor_file {''a1b2c3d4-e5f6-7890-abcd-ef1234567892''}) = 3 \<and>
   fix_competitor_csv_final_rows sample_competitor_file
     {''a1b2c3d4-e5f6-7890-abcd-ef1234567892''} = [sample_competitor_record] \<and>
   fk_violations
     (fix_competitor_csv_final sample_competitor_file
        {''a1b2c3d4-e5f6-7890-abcd-ef1234567892''}) = 2 \<and>
   total_processed
     (fix_competitor_csv_final sample_competitor_file
        {''a1b2c3d4-e5f6-7890-abcd-ef1234567892''}) = 3"
proof -
  let ?V = "{''a1b2c3d4-e5f6-7890-abcd-ef1234567892''}"
  let ?rs = "[sample_orphan_record, sample_competitor_record, sample_orphan_record]"
  have a: "List.map_filter
             (resolved_competitor (\<lambda>ls. parse_competitor_record ls timestamp_pattern))
             (segment (drop 1 sample_competitor_file)) = ?rs"
    by code_simp
  have b: "List.map_filter
             (resolved_competitor (\<lambda>ls. parse_competitor_record_robust ls timestamp_pattern))
             (segment (drop 1 sample_competitor_file)) = ?rs"
    by code_simp
  have c: "filter (\<lambda>r. r ! 2 \<in> ?V) ?rs = [sample_competitor_record]" by code_simp
  have d: "length (filter (\<lambda>r. r ! 2 \<notin> ?V) ?rs) = 2" by code_simp
  have e: "map clean_output_field sample_competitor_record = sample_competitor_record"
    by code_simp
  show ?thesis
    using missing_parent_is_counted_and_excluded
            [of "\<lambda>ls. parse_competitor_record ls timestamp_pattern"
                "drop 1 sample_competitor_file" ?V sample_competitor_file]
    unfolding Let_def a b c d
    by (simp add: e)
qed

section \<open>Timestamp anchors\<close>

subsection \<open>What \<open>finditer\<close> returns\<close>

lemma rx_match_le: "rx_match p s = Some n \<Longrightarrow> n \<le> length s"
proof (induction p s arbitrary: n rule: rx_match.induct)
  case (1 s)
  then show ?case by simp
next
  case (2 c p s)
  then show ?case by (cases s) (auto split: if_splits)
next
  case (3 P m p s)
  then show ?case by (fastforce split: if_splits)
next
  case (4 P p s)
  define k where "k = length (takeWhile P s)"
  have k: "k \<le> length s" by (simp add: k_def length_takeWhile_le)
  from 4(2) obtain j where j: "k \<noteq> 0" "rx_match p (drop k s) = Some j" "n = k + j"
    by (auto simp: Let_def k_def split: if_splits)
  have "j \<le> length (drop k s)" using 4(1) [OF k_def j(1) j(2)] .
  then show ?case using j(3) k by simp
qed

lemma drop_Cons_shift: "Suc i \<le> a \<Longrightarrow> drop (a - i) (x # xs) = drop (a - Suc i) xs"
proof -
  assume "Suc i \<le> a"
  then have "a - i = Suc (a - Suc i)" by arith
  then show ?thesis by simp
qed

lemma finditer_from_sound:
  "(a, b) \<in> set (finditer_from i p s) \<Longrightarrow>
   i \<le> a \<and> a \<le> b \<and> b \<le> i + length s \<and> rx_match p (drop (a - i) s) = Some (b - a)"
proof (induction i p s rule: finditer_from.induct)
  case (1 i p)
  show ?case
  proof (cases "rx_match p []")
    case None
    then show ?thesis using 1 by simp
  next
    case (Some n)
    then have "n = 0" using rx_match_le [of p "[]" n] by simp
    then show ?thesis using 1 Some by simp
  qed
next
  case (2 i p x xs)
  show ?case
  proof (cases "rx_match p (x # xs)")
    case None
    then have "(a, b) \<in> set (finditer_from (Suc i) p xs)" using 2(4) by simp
    from 2(1) [OF None this] show ?thesis
      by (auto simp: drop_Cons_shift)
  next
    case (Some n)
    show ?thesis
    proof (cases n)
      case 0
      show ?thesis
      proof (cases "(a, b) = (i, i)")
        case True
        then show ?thesis using Some 0 by simp
      next
        case False
        then have "(a, b) \<in> set (finditer_from (Suc i) p xs)" using 2(4) Some 0 by auto
        from 2(2) [OF Some 0 this] show ?thesis
          by (auto simp: drop_Cons_shift)
      qed
    next
      case (Suc k)
      have le: "Suc k \<le> length (x # xs)" using Some Suc rx_match_le by blast
      show ?thesis
      proof (cases "(a, b) = (i, i + Suc k)")
        case True
        then show ?thesis using Some Suc le by simp
      next
        case False
        then have "(a, b) \<in> set (finditer_from (i + Suc k) p (drop k xs))"
          using 2(4) Some Suc by auto
        from 2(3) [OF Some Suc this]
        have ih: "i + Suc k \<le> a \<and> a \<le> b \<and> b \<le> i + Suc k + length (drop k xs) \<and>
          rx_match p (drop (a - (i + Suc k)) (drop k xs)) = Some (b - a)" .
        have e: "a - i = Suc (a - (i + Suc k) + k)" using ih by arith
        have d: "drop (a - (i + Suc k)) (drop k xs) = drop (a - i) (x # xs)"
          by (simp only: e drop_Suc_Cons drop_drop)
        have m0: "rx_match p (drop (a - (i + Suc k)) (drop k xs)) = Some (b - a)"
          using ih by blast
        have m: "rx_match p (drop (a - i) (x # xs)) = Some (b - a)"
          using m0 unfolding d .
        have "b \<le> i + length (x # xs)"
        proof -
          have "length (drop k xs) = length xs - k" by simp
          moreover have "k \<le> length xs" using le by simp
          ultimately show ?thesis using ih by simp
        qed
        then show ?thesis using ih m by simp
      qed
    qed
  qed
qed

lemma finditer_from_complete:
  "k \<le> length s \<Longrightarrow> rx_match p (drop k s) \<noteq> None \<Longrightarrow>
   (\<exists>b. (i + k, b) \<in> set (finditer_from i p s)) \<or>
   (\<exists>a b. (a, b) \<in> set (finditer_from i p s) \<and> a < i + k \<and> i + k < b)"
proof (induction i p s arbitrary: k rule: finditer_from.induct)
  case (1 i p)
  then show ?case by (auto split: option.splits)
next
  case (2 i p x xs)
  show ?case
  proof (cases "rx_match p (x # xs)")
    case None
    then obtain k' where k: "k = Suc k'" using 2(5) by (cases k) auto
    have "(\<exists>b. (Suc i + k', b) \<in> set (finditer_from (Suc i) p xs)) \<or>
          (\<exists>a b. (a, b) \<in> set (finditer_from (Suc i) p xs) \<and> a < Suc i + k' \<and> Suc i + k' < b)"
      using 2(1) [OF None, of k'] 2(4,5) k by simp
    then show ?thesis using None k by auto
  next
    case (Some n)
    show ?thesis
    proof (cases n)
      case 0
      show ?thesis
      proof (cases k)
        case 0
        then show ?thesis using Some \<open>n = 0\<close> by auto
      next
        case (Suc k')
        have "(\<exists>b. (Suc i + k', b) \<in> set (finditer_from (Suc i) p xs)) \<or>
          (\<exists>a b. (a, b) \<in> set (finditer_from (Suc i) p xs) \<and> a < Suc i + k' \<and> Suc i + k' < b)"
          using 2(2) [OF Some 0, of k'] 2(4,5) Suc by simp
        then show ?thesis using Some 0 Suc by auto
      qed
    next
      case (Suc j)
      consider "k = 0" | "0 < k" "k < Suc j" | "Suc j \<le> k" by arith
      then show ?thesis
      proof cases
        case 1
        then show ?thesis using Some Suc by auto
      next
        case 2
        have "(i, i + Suc j) \<in> set (finditer_from i p (x # xs))" using Some Suc by simp
        then show ?thesis using 2 by (intro disjI2 exI [of _ i] exI [of _ "i + Suc j"]) simp
      next
        case 3
        define k' where "k' = k - Suc j"
        have k: "k = Suc (k' + j)" using 3 by (simp add: k'_def)
        have a: "k' \<le> length (drop j xs)" using 2(4) k by simp
        have b: "rx_match p (drop k' (drop j xs)) \<noteq> None" using 2(5) k by simp
        have "(\<exists>b. (i + Suc j + k', b) \<in> set (finditer_from (i + Suc j) p (drop j xs))) \<or>
          (\<exists>a b. (a, b) \<in> set (finditer_from (i + Suc j) p (drop j xs)) \<and>
                  a < i + Suc j + k' \<and> i + Suc j + k' < b)"
          using 2(3) [OF Some Suc a b] .
        then show ?thesis using Some Suc k by (auto simp: add.commute add.left_commute)
      qed
    qed
  qed
qed

lemma finditer_from_sorted:
  "sorted_wrt (\<lambda>m m'. fst m < fst m' \<and> snd m \<le> fst m') (finditer_from i p s)"
proof (induction i p s rule: finditer_from.induct)
  case (1 i p)
  show ?case by (simp split: option.splits)
next
  case (2 i p x xs)
  show ?case
  proof (cases "rx_match p (x # xs)")
    case None
    then show ?thesis using 2(1) by simp
  next
    case (Some n)
    show ?thesis
    proof (cases n)
      case 0
      have "\<forall>m \<in> set (finditer_from (Suc i) p xs). i < fst m \<and> i \<le> fst m"
        using finditer_from_sound [of _ _ "Suc i" p xs] by fastforce
      then show ?thesis using Some 0 2(2) by simp
    next
      case (Suc k)
      have "\<forall>m \<in> set (finditer_from (i + Suc k) p (drop k xs)).
              i < fst m \<and> i + Suc k \<le> fst m"
        using finditer_from_sound [of _ _ "i + Suc k" p "drop k xs"] by fastforce
      then show ?thesis using Some Suc 2(3) by simp
    qed
  qed
qed

lemma parse_competitor_record_anchors:
  "(length (comma_parts lines) < 14 \<or>
    length (finditer timestamp_pattern (text_after_prefix lines)) < 2 \<longrightarrow>
      parse_competitor_record lines timestamp_pattern = None) \<and>
   (14 \<le> length (comma_parts lines) \<and>
    2 \<le> length (finditer timestamp_pattern (text_after_prefix lines)) \<longrightarrow>
      (\<exists>r. parse_competitor_record lines timestamp_pattern = Some r \<and> length r = 14 \<and>
           r ! 10 = group (text_after_prefix lines)
                      (finditer timestamp_pattern (text_after_prefix lines) !
                         (length (finditer timestamp_pattern (text_after_prefix lines)) - 2)) \<and>
           r ! 11 = group (text_after_prefix lines)
                      (finditer timestamp_pattern (text_after_prefix lines) !
                         (length (finditer timestamp_pattern (text_after_prefix lines)) - 1))))"
  by (simp add: parse_competitor_record_def comma_parts_def text_after_prefix_def Let_def)

lemma parse_record_lines_anchors:
  "(length (finditer timestamp_pattern (strip (join '' '' lines))) < 2 \<or>
    length (comma_parts lines) < 8 \<longrightarrow> parse_record_lines lines = None) \<and>
   (2 \<le> length (finditer timestamp_pattern (strip (join '' '' lines))) \<and>
    8 \<le> length (comma_parts lines) \<longrightarrow>
      (\<exists>r. parse_record_lines lines = Some r \<and> length r = 13 \<and>
           r ! 10 = group (strip (join '' '' lines))
                      (finditer timestamp_pattern (strip (join '' '' lines)) !
                         (length (finditer timestamp_pattern (strip (join '' '' lines))) - 2)) \<and>
           r ! 11 = group (strip (join '' '' lines))
                      (finditer timestamp_pattern (strip (join '' '' lines)) !
                         (length (finditer timestamp_pattern (strip (join '' '' lines))) - 1))))"
  by (simp add: parse_record_lines_def comma_parts_def Let_def)

lemma slice_single: "i < length xs \<Longrightarrow> slice i (i + 1) xs = [xs ! i]"
  by (simp add: slice_def take_Suc_conv_app_nth)

lemma filter_upt_nth_less:
  assumes "k < length (filter P [0 ..< n])"
  shows "filter P [0 ..< n] ! k < n"
proof -
  have "filter P [0 ..< n] ! k \<in> set (filter P [0 ..< n])"
    using assms by (rule nth_mem)
  then show ?thesis by simp
qed

lemma process_record_lines_anchors:
  fixes lines :: "string list"
  defines "rem \<equiv> drop 8 (comma_parts lines)"
  defines "pos \<equiv> filter (\<lambda>i. re_search datetime_rx (rem ! i)) [0 ..< length rem]"
  shows "(length (comma_parts lines) < 13 \<or> length pos < 2 \<longrightarrow>
            process_record_lines lines = None) \<and>
         (13 \<le> length (comma_parts lines) \<and> 2 \<le> length pos \<longrightarrow>
            (\<exists>r. process_record_lines lines = Some r \<and> length r = 13 \<and>
                 r ! 10 = strip (join '','' (slice (pos ! (length pos - 2))
                                                  (pos ! (length pos - 1)) rem)) \<and>
                 r ! 11 = strip (rem ! (pos ! (length pos - 1)))))"
proof (intro conjI impI)
  assume "length (comma_parts lines) < 13 \<or> length pos < 2"
  then show "process_record_lines lines = None"
    by (auto simp add: process_record_lines_def comma_parts_def rem_def pos_def Let_def
          simp del: nth_drop)
next
  assume a: "13 \<le> length (comma_parts lines) \<and> 2 \<le> length pos"
  have "length pos - 1 < length pos" using a by arith
  then have l: "pos ! (length pos - 1) < length rem"
    unfolding pos_def by (rule filter_upt_nth_less)
  have s: "slice (pos ! (length pos - 1)) (pos ! (length pos - 1) + 1) rem =
           [rem ! (pos ! (length pos - 1))]"
    using l by (rule slice_single)
  have t: "length (take 8 (comma_parts lines)) = 8" using a by simp
  have p: "process_record_lines lines =
     Some (take 13 (take 8 (comma_parts lines) @
       [(if length (rsplit1 (strip (join '','' (take (pos ! (length pos - 2)) rem))) joint) = 2
         then strip_quote (rsplit1 (strip (join '','' (take (pos ! (length pos - 2)) rem))) joint ! 0)
         else strip_quote (strip (join '','' (take (pos ! (length pos - 2)) rem)))),
        (if length (rsplit1 (strip (join '','' (take (pos ! (length pos - 2)) rem))) joint) = 2
         then strip (rsplit1 (strip (join '','' (take (pos ! (length pos - 2)) rem))) joint ! 1)
         else []),
        strip (join '','' (slice (pos ! (length pos - 2)) (pos ! (length pos - 1)) rem)),
        strip (join '','' (slice (pos ! (length pos - 1)) (pos ! (length pos - 1) + 1) rem)),
        strip (join '','' (drop (pos ! (length pos - 1) + 1) rem))]))"
    using a
    by (simp add: process_record_lines_def comma_parts_def rem_def pos_def Let_def
          del: nth_drop)
  show "\<exists>r. process_record_lines lines = Some r \<and> length r = 13 \<and>
                 r ! 10 = strip (join '','' (slice (pos ! (length pos - 2))
                                                  (pos ! (length pos - 1)) rem)) \<and>
                 r ! 11 = strip (rem ! (pos ! (length pos - 1)))"
    unfolding p s using t by (simp add: nth_append)
qed

text \<open>
  C2, as stated, fails: a competitor record whose two timestamps carry the offset
  \<open>-05\<close> has two occurrences of \<open>YYYY-MM-DD HH:MM:SS.ffffff\<plusminus>HH\<close> after its
  fixed prefix, and both competitor resolvers return \<open>None\<close> for it, since their
  pattern only admits the sign \<open>+\<close>.
\<close>

theorem minus_offset_counterexample:
  "length (comma_parts [sample_competitor_line_west]) = 14 \<and>
   length (finditer spec_timestamp_pattern (text_after_prefix [sample_competitor_line_west])) = 2 \<and>
   parse_competitor_record [sample_competitor_line_west] timestamp_pattern = None \<and>
   parse_competitor_record_robust [sample_competitor_line_west] timestamp_pattern = None"
  by code_simp

text \<open>
  C2, amended.  \<open>parse_competitor_record\<close> scans the text after the eight leading
  parts with \<open>timestamp_pattern\<close> (one or more fractional digits, offset sign \<open>+\<close>
  only); it returns \<open>None\<close> with fewer than 14 parts or fewer than two matches, and
  otherwise 14 fields whose \<open>analyzed_at\<close> is the second-to-last match and whose
  \<open>created_at\<close> is the last.  \<open>parse_record_lines\<close> does the same on the whole joined
  line (and needs 8 parts).  \<open>process_record_lines\<close> instead looks for
  \<open>datetime_rx\<close> inside each comma-separated part after the first eight, needs two
  such parts (and 13 parts), and takes the last such part as \<open>created_at\<close> and the
  parts from the second-to-last up to it as \<open>analyzed_at\<close>.  The matches that
  \<open>finditer\<close> returns are matches of the pattern inside the text, and every position
  where the pattern matches either starts a returned match or lies strictly inside one.
  They are listed from left to right and do not overlap: each match starts after the
  start of the one before it, and not before its end; so the last match of the list is
  the rightmost match in the text, and the second-to-last the one before it.
\<close>

theorem timestamp_anchors:
  "(let ms = finditer timestamp_pattern (text_after_prefix lines)
    in (length (comma_parts lines) < 14 \<or> length ms < 2 \<longrightarrow>
          parse_competitor_record lines timestamp_pattern = None) \<and>
       (14 \<le> length (comma_parts lines) \<and> 2 \<le> length ms \<longrightarrow>
          (\<exists>r. parse_competitor_record lines timestamp_pattern = Some r \<and> length r = 14 \<and>
               r ! 10 = group (text_after_prefix lines) (ms ! (length ms - 2)) \<and>
               r ! 11 = group (text_after_prefix lines) (ms ! (length ms - 1))))) \<and>
   (let full_line = strip (join '' '' lines);
        ms = finditer timestamp_pattern full_line
    in (length ms < 2 \<or> length (comma_parts lines) < 8 \<longrightarrow> parse_record_lines lines = None) \<and>
       (2 \<le> length ms \<and> 8 \<le> length (comma_parts lines) \<longrightarrow>
          (\<exists>r. parse_record_lines lines = Some r \<and> length r = 13 \<and>
               r ! 10 = group full_line (ms ! (length ms - 2)) \<and>
               r ! 11 = group full_line (ms ! (length ms - 1))))) \<and>
   (let rem = drop 8 (comma_parts lines);
        pos = filter (\<lambda>i. re_search datetime_rx (rem ! i)) [0 ..< length rem]
    in (length (comma_parts lines) < 13 \<or> length pos < 2 \<longrightarrow>
          process_record_lines lines = None) \<and>
       (13 \<le> length (comma_parts lines) \<and> 2 \<le> length pos \<longrightarrow>
          (\<exists>r. process_record_lines lines = Some r \<and> length r = 13 \<and>
               r ! 10 = strip (join '','' (slice (pos ! (length pos - 2))
                                                (pos ! (length pos - 1)) rem)) \<and>
               r ! 11 = strip (rem ! (pos ! (length pos - 1)))))) \<and>
   (\<forall>a b. (a, b) \<in> set (finditer p s) \<longrightarrow>
      a \<le> b \<and> b \<le> length s \<and> rx_match p (drop a s) = Some (b - a)) \<and>
   (\<forall>k. k \<le> length s \<and> rx_match p (drop k s) \<noteq> None \<longrightarrow>
      (\<exists>b. (k, b) \<in> set (finditer p s)) \<or>
      (\<exists>a b. (a, b) \<in> set (finditer p s) \<and> a < k \<and> k < b)) \<and>
   sorted_wrt (\<lambda>m m'. fst m < fst m' \<and> snd m \<le> fst m') (finditer p s)"
proof -
  have o: "sorted_wrt (\<lambda>m m'. fst m < fst m' \<and> snd m \<le> fst m') (finditer p s)"
    unfolding finditer_def by (rule finditer_from_sorted)
  have s: "\<forall>a b. (a, b) \<in> set (finditer p s) \<longrightarrow>
      a \<le> b \<and> b \<le> length s \<and> rx_match p (drop a s) = Some (b - a)"
    using finditer_from_sound [of _ _ 0 p s] by (simp add: finditer_def)
  have c: "\<forall>k. k \<le> length s \<and> rx_match p (drop k s) \<noteq> None \<longrightarrow>
      (\<exists>b. (k, b) \<in> set (finditer p s)) \<or>
      (\<exists>a b. (a, b) \<in> set (finditer p s) \<and> a < k \<and> k < b)"
    using finditer_from_complete [of _ s p 0] by (simp add: finditer_def)
  show ?thesis
    unfolding Let_def
    using parse_competitor_record_anchors [of lines] parse_record_lines_anchors [of lines]
      process_record_lines_anchors [of lines] s c o
    by blast
qed

theorem timestamp_anchors_witness:
  "length (comma_parts [sample_competitor_line_quoted]) = 14 \<and>
   finditer timestamp_pattern (text_after_prefix [sample_competitor_line_quoted]) =
     [(6, 30), (45, 74), (75, 104)] \<and>
   group (text_after_prefix [sample_competitor_line_quoted]) (6, 30) =
     ''2024-12-31 23:59:59.5+00'' \<and>
   map_option (\<lambda>r. (r ! 8, r ! 10, r ! 11))
     (parse_competitor_record [sample_competitor_line_quoted] timestamp_pattern) =
     Some (''seen 2024-12-31 23:59:59.5+00 here'',
           group (text_after_prefix [sample_competitor_line_quoted]) (45, 74),
           group (text_after_prefix [sample_competitor_line_quoted]) (75, 104)) \<and>
   group (text_after_prefix [sample_competitor_line_quoted]) (45, 74) =
     ''2025-01-01 00:00:00.000000+00'' \<and>
   group (text_after_prefix [sample_competitor_line_quoted]) (75, 104) =
     ''2025-01-02 00:00:00.000000+00'' \<and>
   rx_match timestamp_pattern (drop 45 (text_after_prefix [sample_competitor_line_quoted])) =
     Some 29"
proof -
  let ?t = "text_after_prefix [sample_competitor_line_quoted]"
  have a: "length (comma_parts [sample_competitor_line_quoted]) = 14" by code_simp
  have b: "finditer timestamp_pattern ?t = [(6, 30), (45, 74), (75, 104)]"
    by code_simp
  have c: "map_option (\<lambda>r. r ! 8)
             (parse_competitor_record [sample_competitor_line_quoted] timestamp_pattern) =
           Some ''seen 2024-12-31 23:59:59.5+00 here''"
    by code_simp
  have d: "group ?t (6, 30) = ''2024-12-31 23:59:59.5+00''" by code_simp
  have e: "group ?t (45, 74) = ''2025-01-01 00:00:00.000000+00''" by code_simp
  have f: "group ?t (75, 104) = ''2025-01-02 00:00:00.000000+00''" by code_simp
  note T = timestamp_anchors [of "[sample_competitor_line_quoted]" timestamp_pattern ?t]
  have "\<exists>r. parse_competitor_record [sample_competitor_line_quoted] timestamp_pattern = Some r \<and>
          length r = 14 \<and> r ! 10 = group ?t (45, 74) \<and> r ! 11 = group ?t (75, 104)"
    using a b T by (simp add: Let_def)
  then obtain r where r:
    "parse_competitor_record [sample_competitor_line_quoted] timestamp_pattern = Some r"
    "r ! 10 = group ?t (45, 74)" "r ! 11 = group ?t (75, 104)"
    by blast
  have "(45, 74) \<in> set (finditer timestamp_pattern ?t)" by (simp add: b)
  then have g: "rx_match timestamp_pattern (drop 45 ?t) = Some (74 - 45)"
    using T by blast
  show ?thesis using a b c d e f g r by simp
qed

end
